theory Spec2Isabelle
  imports Main
begin

section \<open>firebase-auth-lite: the Auth class of src/main.js\<close>

text \<open>
  The source file holds two listings of the class \<^verbatim>\<open>Auth\<close>. The first one (lines 1-449)
  updates the session with \<^verbatim>\<open>persistSession\<close>; the second one (lines 451-906) updates it
  with \<^verbatim>\<open>setState\<close>. Functions whose text differs between the listings take the listing
  as their first argument; functions whose text is the same in both are written once.
\<close>

datatype listing = PersistSession | SetState

subsection \<open>Data\<close>

text \<open>
  \<^verbatim>\<open>expiresAt\<close> is a JavaScript number: \<open>Some t\<close> is the instant \<open>t\<close> in milliseconds,
  \<open>None\<close> stands for \<^verbatim>\<open>NaN\<close>, \<^verbatim>\<open>undefined\<close> or \<^verbatim>\<open>null\<close>, for which every
  comparison \<^verbatim>\<open>Date.now() < expiresAt\<close> is false.
\<close>

record tokenManager =
  idToken :: string
  refreshToken :: string
  expiresAt :: "int option"

text \<open>The user object: its profile fields, and the reserved field \<^verbatim>\<open>tokenManager\<close>.\<close>

record session =
  profile :: "(string \<times> string) list"
  tokenManager :: tokenManager

text \<open>
  A thrown value. \<open>Error m\<close> is \<^verbatim>\<open>Error(m)\<close> thrown by the class itself; \<open>TypeError\<close> is
  the engine's error on reading a property of \<^verbatim>\<open>null\<close> or \<^verbatim>\<open>undefined\<close>;
  \<open>StorageError\<close> and \<open>NetworkError\<close> are rejections of the storage adapter and of
  \<^verbatim>\<open>fetch\<close>; \<open>ObserverError cb\<close> is what the listener \<open>cb\<close> throws.
\<close>

datatype error =
    Error string
  | TypeError string
  | SyntaxError string
  | StorageError string
  | NetworkError string
  | ObserverError nat

fun message :: "error \<Rightarrow> string" where
  "message (Error m) = m"
| "message (TypeError m) = m"
| "message (SyntaxError m) = m"
| "message (StorageError m) = m"
| "message (NetworkError m) = m"
| "message (ObserverError cb) = []"

abbreviation NotAuthenticated :: error where
  "NotAuthenticated \<equiv> Error ''The user must be logged-in to use this method.''"

abbreviation MissingRedirectTarget :: error where
  "MissingRedirectTarget \<equiv> Error
     ''In order to use an Identity provider you should initiate the \"Auth\" instance with a \"redirectUri\".''"

abbreviation OrphanedLinkAttempt :: error where
  "OrphanedLinkAttempt \<equiv> Error
     ''Request to \"Link account\" was made, but user is no longer signed-in''"

definition UnconfiguredProvider :: "string \<Rightarrow> error" where
  "UnconfiguredProvider provider =
     Error (''You haven't configured \"'' @ provider @ ''\" with this \"Auth\" instance.'')"

text \<open>
  A stored value: the JSON text of a user object or of \<^verbatim>\<open>null\<close>, a plain string, or the
  value \<^verbatim>\<open>true\<close> that \<^verbatim>\<open>signInWithProvider\<close> passes to \<^verbatim>\<open>storage.set\<close>.
  A field of a request body is a string, a boolean, \<^verbatim>\<open>undefined\<close> (such a field is left out
  by \<^verbatim>\<open>JSON.stringify\<close>) or a value as it was read from the storage.
\<close>

datatype stored = SUser "session option" | SText string | STrue

datatype jv = JStr string | JBool bool | JUndefined | JStored "stored option"

datatype jbody = NoBody | Json "(string \<times> jv) list" | Text string

record request =
  url :: string
  meth :: string
  headers :: "(string \<times> string) list"
  body :: jbody

text \<open>
  The parsed JSON of a response: the fields the class reads. \<^verbatim>\<open>users\<close> is the array of
  the \<^verbatim>\<open>lookup\<close> endpoint, each user given by its fields.
\<close>

record json =
  id_token :: string
  refresh_token :: string
  r_idToken :: string
  r_refreshToken :: string
  r_context :: string
  authUri :: string
  sessionId :: string
  users :: "(string \<times> string) list list"

text \<open>
  A response of \<^verbatim>\<open>fetch\<close>: \<^verbatim>\<open>response.ok\<close>, \<^verbatim>\<open>data.error.message\<close> of a failed call, the
  parsed body, and \<^verbatim>\<open>Date.parse(response.headers.get('date'))\<close> (\<open>None\<close> for \<^verbatim>\<open>NaN\<close>).
\<close>

record response =
  ok :: bool
  error_message :: string
  data :: json
  date :: "int option"

datatype storage_op = Get string | Set string stored | Remove string

text \<open>
  The instance and the world it acts on. \<open>ref\<close> says whether \<^verbatim>\<open>this.refreshRequest\<close>
  (first listing) or \<^verbatim>\<open>this._ref\<close> (second listing) holds a promise. Listeners are
  functions, compared by identity in the source; a listener is a number here.
  \<open>requests\<close> is the log of the calls of \<^verbatim>\<open>fetch\<close>, \<open>notified\<close> the log of the listener
  calls with their argument, \<open>href\<close> is \<^verbatim>\<open>location.href\<close> and \<open>replaced\<close> counts the calls
  of \<^verbatim>\<open>history.replaceState\<close>.
\<close>

record state =
  name :: string
  apiKey :: string
  redirectUri :: "string option"
  providers :: "(string \<times> string option) list"
  listeners :: "nat list"
  user :: "session option"
  ref :: bool
  storage :: "string \<Rightarrow> stored option"
  requests :: "request list"
  notified :: "(nat \<times> session option) list"
  href :: string
  replaced :: nat

text \<open>
  What the class does not decide: the clock, the answers of \<^verbatim>\<open>fetch\<close> (by the number
  of earlier calls and the request), the storage operations the adapter rejects (with
  the message of the rejection), the listeners that throw, and the table
  \<^verbatim>\<open>errors.json\<close> imported by the first listing, which is not part of the sources.
\<close>

record env =
  now :: int
  fetch :: "nat \<Rightarrow> request \<Rightarrow> error + response"
  faulty :: "storage_op \<Rightarrow> string option"
  throws :: "nat \<Rightarrow> bool"
  humanReadableErrors :: "string \<Rightarrow> string option"

subsection \<open>Asynchronous functions, run one at a time\<close>

text \<open>
  An \<^verbatim>\<open>async\<close> function maps the state to how its promise settles and the state then.
  \<open>Pending\<close> says that the function is left waiting for a promise that no step of its
  own settles.
\<close>

datatype 'a outcome = Resolved 'a | Rejected error | Pending

type_synonym 'a async = "state \<Rightarrow> 'a outcome \<times> state"

definition return :: "'a \<Rightarrow> 'a async" where
  "return a s = (Resolved a, s)"

definition throw :: "error \<Rightarrow> 'a async" where
  "throw e s = (Rejected e, s)"

definition await :: "'a async \<Rightarrow> ('a \<Rightarrow> 'b async) \<Rightarrow> 'b async" where
  "await p k s =
     (case p s of
        (Resolved a, s') \<Rightarrow> k a s'
      | (Rejected e, s') \<Rightarrow> (Rejected e, s')
      | (Pending, s') \<Rightarrow> (Pending, s'))"

text \<open>\<^verbatim>\<open>try { p } finally { f }\<close>: the block \<open>f\<close> runs when \<open>p\<close> has settled.\<close>

definition try_finally :: "'a async \<Rightarrow> (state \<Rightarrow> state) \<Rightarrow> 'a async" where
  "try_finally p f s =
     (case p s of
        (Pending, s') \<Rightarrow> (Pending, s')
      | (r, s') \<Rightarrow> (r, f s'))"

subsection \<open>Storage\<close>

text \<open>\<^verbatim>\<open>sKey(key)\<close>; the first listing writes the same template in place.\<close>

definition sKey :: "string \<Rightarrow> state \<Rightarrow> string" where
  "sKey key s = ''Auth:'' @ key @ '':'' @ apiKey s @ '':'' @ name s"

definition settle_write :: "string option \<Rightarrow> (state \<Rightarrow> state) \<Rightarrow> unit async" where
  "settle_write q w s = (case q of Some m \<Rightarrow> (Rejected (StorageError m), s) | None \<Rightarrow> (Resolved (), w s))"

definition put :: "string \<Rightarrow> stored \<Rightarrow> state \<Rightarrow> state" where
  "put k v s = s\<lparr>storage := (storage s)(k \<mapsto> v)\<rparr>"

definition del :: "string \<Rightarrow> state \<Rightarrow> state" where
  "del k s = s\<lparr>storage := (storage s)(k := None)\<rparr>"

definition storage_set :: "env \<Rightarrow> string \<Rightarrow> stored \<Rightarrow> unit async" where
  "storage_set e k v = settle_write (faulty e (Set k v)) (put k v)"

definition storage_remove :: "env \<Rightarrow> string \<Rightarrow> unit async" where
  "storage_remove e k = settle_write (faulty e (Remove k)) (del k)"

definition storage_get :: "env \<Rightarrow> string \<Rightarrow> stored option async" where
  "storage_get e k s =
     (case faulty e (Get k) of Some m \<Rightarrow> (Rejected (StorageError m), s) | None \<Rightarrow> (Resolved (storage s k), s))"

text \<open>JavaScript truthiness of what \<^verbatim>\<open>storage.get\<close> returns (a string, \<^verbatim>\<open>true\<close> or \<^verbatim>\<open>null\<close>).\<close>

fun truthy :: "stored option \<Rightarrow> bool" where
  "truthy None = False"
| "truthy (Some (SUser u)) = True"
| "truthy (Some (SText t)) = (t \<noteq> [])"
| "truthy (Some STrue) = True"

text \<open>
  \<^verbatim>\<open>JSON.parse\<close> of what was read under the user key. The class writes there the JSON
  text of a user object and nothing else; another value is taken not to parse.
\<close>

fun JSON_parse :: "stored option \<Rightarrow> error + session option" where
  "JSON_parse None = Inr None"
| "JSON_parse (Some (SUser u)) = Inr u"
| "JSON_parse (Some (SText t)) = Inl (SyntaxError t)"
| "JSON_parse (Some STrue) = Inl (SyntaxError ''true'')"

subsection \<open>Listeners\<close>

text \<open>
  \<^verbatim>\<open>this.listeners.forEach(cb => cb(this.user))\<close>: the listeners are called in order; one
  that throws ends the pass, and the exception leaves \<^verbatim>\<open>emit\<close>.
\<close>

fun forEach :: "(nat \<Rightarrow> bool) \<Rightarrow> session option \<Rightarrow> nat list \<Rightarrow> (nat \<times> session option) list \<times> error option" where
  "forEach thr v [] = ([], None)"
| "forEach thr v (cb # cbs) =
     (if thr cb then ([(cb, v)], Some (ObserverError cb))
      else (case forEach thr v cbs of (l, r) \<Rightarrow> ((cb, v) # l, r)))"

definition emit :: "env \<Rightarrow> unit async" where
  "emit e s =
     (case forEach (throws e) (user s) (listeners s) of
        (l, r) \<Rightarrow> ((case r of None \<Rightarrow> Resolved () | Some x \<Rightarrow> Rejected x), s\<lparr>notified := notified s @ l\<rparr>))"

text \<open>\<^verbatim>\<open>listen(cb)\<close> pushes \<open>cb\<close>; the function it returns is \<open>unlisten cb\<close>.\<close>

definition listen :: "nat \<Rightarrow> state \<Rightarrow> state" where
  "listen cb s = s\<lparr>listeners := listeners s @ [cb]\<rparr>"

definition unlisten :: "nat \<Rightarrow> state \<Rightarrow> state" where
  "unlisten cb s = s\<lparr>listeners := filter (\<lambda>fn. fn \<noteq> cb) (listeners s)\<rparr>"

subsection \<open>Updating the session\<close>

text \<open>First listing, \<^verbatim>\<open>persistSession(userData)\<close>: write, then assign, then emit.\<close>

definition persistSession :: "env \<Rightarrow> session \<Rightarrow> unit async" where
  "persistSession e userData s =
     await (storage_set e (sKey ''User'' s) (SUser (Some userData)))
       (\<lambda>_ s1. emit e (s1\<lparr>user := Some userData\<rparr>)) s"

text \<open>
  Second listing, \<^verbatim>\<open>setState(userData, persist = true, emit = true)\<close>: assign, then
  \<^verbatim>\<open>set\<close> or \<^verbatim>\<open>remove\<close> when \<open>persist\<close>, then emit when \<open>emit\<close>.
\<close>

definition setState :: "env \<Rightarrow> session option \<Rightarrow> bool \<Rightarrow> bool \<Rightarrow> unit async" where
  "setState e userData persist em s =
     await
       (if persist then
          (case userData of
             Some u \<Rightarrow> storage_set e (sKey ''User'' s) (SUser userData)
           | None \<Rightarrow> storage_remove e (sKey ''User'' s))
        else return ())
       (\<lambda>_. if em then emit e else return ())
       (s\<lparr>user := userData\<rparr>)"

fun signOut :: "listing \<Rightarrow> env \<Rightarrow> unit async" where
  "signOut PersistSession e s =
     await (storage_remove e (sKey ''User'' s)) (\<lambda>_ s1. emit e (s1\<lparr>user := None\<rparr>)) s"
| "signOut SetState e s = setState e None True True s"

subsection \<open>Remote calls\<close>

text \<open>
  Second listing: \<^verbatim>\<open>data.error.message.replace(/: [\w ,.'"()]+$/, '')\<close>. The leftmost colon
  that is followed by a blank and then, up to the end of the string, by one or more
  characters of the class is where the message is cut.
\<close>

definition explanatory :: "char \<Rightarrow> bool" where
  "explanatory c =
     (c \<in> set ''abcdefghijklmnopqrstuvwxyzABCDEFGHIJKLMNOPQRSTUVWXYZ0123456789_ ,.()''
      \<or> c = CHR 0x27 \<or> c = CHR 0x22)"

definition explanation :: "string \<Rightarrow> bool" where
  "explanation cs = (case cs of [] \<Rightarrow> False | d # ds \<Rightarrow> d = CHR '' '' \<and> ds \<noteq> [] \<and> list_all explanatory ds)"

fun strip_explanation :: "string \<Rightarrow> string" where
  "strip_explanation [] = []"
| "strip_explanation (c # cs) = (if c = CHR '':'' \<and> explanation cs then [] else c # strip_explanation cs)"

text \<open>First listing: \<^verbatim>\<open>humanReadableErrors[data.error.message] || data.error.message\<close>.\<close>

fun error_code :: "listing \<Rightarrow> env \<Rightarrow> string \<Rightarrow> string" where
  "error_code PersistSession e m =
     (case humanReadableErrors e m of None \<Rightarrow> m | Some h \<Rightarrow> if h = [] then m else h)"
| "error_code SetState e m = strip_explanation m"

definition endpoint_url :: "string \<Rightarrow> state \<Rightarrow> string" where
  "endpoint_url endpoint s =
     (if endpoint = ''token'' then ''https://securetoken.googleapis.com/v1/token?key='' @ apiKey s
      else ''https://identitytoolkit.googleapis.com/v1/accounts:'' @ endpoint @ ''?key='' @ apiKey s)"

text \<open>
  What the promise of \<^verbatim>\<open>api\<close> settles with, given how \<^verbatim>\<open>fetch\<close> settled: the parsed body
  together with its hidden property \<^verbatim>\<open>expiresAt\<close>, the date of the response plus one hour;
  or, for a response that is not ok, an error made from its \<^verbatim>\<open>data.error.message\<close>.
\<close>

type_synonym reply = "json \<times> int option"

definition api_settle :: "listing \<Rightarrow> env \<Rightarrow> error + response \<Rightarrow> reply outcome" where
  "api_settle l e r =
     (case r of
        Inl x \<Rightarrow> Rejected x
      | Inr resp \<Rightarrow>
          if \<not> ok resp then Rejected (Error (error_code l e (error_message resp)))
          else Resolved (data resp, map_option (\<lambda>d. d + 3600 * 1000) (date resp)))"

definition api_request :: "string \<Rightarrow> (string \<times> jv) list \<Rightarrow> state \<Rightarrow> request" where
  "api_request endpoint b s = \<lparr>url = endpoint_url endpoint s, meth = ''POST'', headers = [], body = Json b\<rparr>"

definition api :: "listing \<Rightarrow> env \<Rightarrow> string \<Rightarrow> (string \<times> jv) list \<Rightarrow> reply async" where
  "api l e endpoint b s =
     (api_settle l e (fetch e (length (requests s)) (api_request endpoint b s)),
      s\<lparr>requests := requests s @ [api_request endpoint b s]\<rparr>)"

subsection \<open>Refreshing the token\<close>

text \<open>\<^verbatim>\<open>Date.now() < this.user.tokenManager.expiresAt\<close>\<close>

definition fresh :: "int \<Rightarrow> tokenManager \<Rightarrow> bool" where
  "fresh t tm = (case expiresAt tm of None \<Rightarrow> False | Some x \<Rightarrow> t < x)"

text \<open>\<^verbatim>\<open>{ ...this.user, tokenManager }\<close>; spreading \<^verbatim>\<open>null\<close> adds no field.\<close>

definition spread :: "session option \<Rightarrow> tokenManager \<Rightarrow> session" where
  "spread u tm = (case u of None \<Rightarrow> \<lparr>profile = [], tokenManager = tm\<rparr> | Some v \<Rightarrow> v\<lparr>tokenManager := tm\<rparr>)"

definition token_body :: "session \<Rightarrow> (string \<times> jv) list" where
  "token_body u = [(''grant_type'', JStr ''refresh_token''), (''refresh_token'', JStr (refreshToken (tokenManager u)))]"

definition refreshed :: "reply \<Rightarrow> tokenManager" where
  "refreshed d = \<lparr>idToken = id_token (fst d), refreshToken = refresh_token (fst d), expiresAt = snd d\<rparr>"

text \<open>
  What follows the answer of the \<^verbatim>\<open>token\<close> call: \<^verbatim>\<open>persistSession\<close> in the first listing,
  \<^verbatim>\<open>setState(..., true, false)\<close> in the second; \<^verbatim>\<open>this.user\<close> is read at that moment.
\<close>

fun adopt :: "listing \<Rightarrow> env \<Rightarrow> reply \<Rightarrow> unit async" where
  "adopt PersistSession e d s = persistSession e (spread (user s) (refreshed d)) s"
| "adopt SetState e d s = setState e (Some (spread (user s) (refreshed d))) True False s"

text \<open>
  \<^verbatim>\<open>refreshIdToken()\<close>. With no user the first line reads a property of \<^verbatim>\<open>null\<close>. When the
  handle is set, the call waits for the request of another call: run on its own it stays
  \<open>Pending\<close> (the interleaving of several calls is modelled further down).
\<close>

definition refreshIdToken :: "listing \<Rightarrow> env \<Rightarrow> unit async" where
  "refreshIdToken l e s =
     (case user s of
        None \<Rightarrow> throw (TypeError ''tokenManager'') s
      | Some u \<Rightarrow>
          if fresh (now e) (tokenManager u) then return () s
          else if ref s then (Pending, s)
          else
            try_finally
              (\<lambda>s0. case api l e ''token'' (token_body u) s0 of
                      (p, s1) \<Rightarrow> await (\<lambda>s2. (p, s2)) (adopt l e) (s1\<lparr>ref := True\<rparr>))
              (\<lambda>s3. s3\<lparr>ref := False\<rparr>)
              s)"

definition enforceAuth :: "listing \<Rightarrow> env \<Rightarrow> unit async" where
  "enforceAuth l e s =
     (case user s of
        None \<Rightarrow> throw NotAuthenticated s
      | Some u \<Rightarrow> refreshIdToken l e s)"

subsection \<open>Requests with the Authorization header\<close>

datatype resource = IsRequest request | Url string

record init =
  i_meth :: "string option"
  i_headers :: "(string \<times> string) list"
  i_body :: jbody

text \<open>
  \<^verbatim>\<open>new Request(resource, init)\<close> and \<^verbatim>\<open>request.headers.set(k, v)\<close> of the platform. The
  request is taken to hold its arguments as they are given: the platform's normal form
  of the address and the combinations of options it refuses are left aside.
\<close>

definition new_Request :: "string \<Rightarrow> init option \<Rightarrow> request" where
  "new_Request u i =
     (case i of
        None \<Rightarrow> \<lparr>url = u, meth = ''GET'', headers = [], body = NoBody\<rparr>
      | Some j \<Rightarrow> \<lparr>url = u, meth = (case i_meth j of None \<Rightarrow> ''GET'' | Some m \<Rightarrow> m),
                  headers = i_headers j, body = i_body j\<rparr>)"

definition headers_set :: "string \<Rightarrow> string \<Rightarrow> request \<Rightarrow> request" where
  "headers_set k v r = r\<lparr>headers := filter (\<lambda>h. fst h \<noteq> k) (headers r) @ [(k, v)]\<rparr>"

definition do_fetch :: "env \<Rightarrow> request \<Rightarrow> response async" where
  "do_fetch e r s =
     ((case fetch e (length (requests s)) r of Inl x \<Rightarrow> Rejected x | Inr resp \<Rightarrow> Resolved resp),
      s\<lparr>requests := requests s @ [r]\<rparr>)"

definition authorizedRequest :: "listing \<Rightarrow> env \<Rightarrow> resource \<Rightarrow> init option \<Rightarrow> response async" where
  "authorizedRequest l e res i s =
     (let request = (case res of IsRequest r \<Rightarrow> r | Url u \<Rightarrow> new_Request u i) in
      case user s of
        Some u \<Rightarrow>
          await (refreshIdToken l e)
            (\<lambda>_ s1. case user s1 of
                      None \<Rightarrow> throw (TypeError ''tokenManager'') s1
                    | Some v \<Rightarrow>
                        do_fetch e (headers_set ''Authorization'' (''Bearer '' @ idToken (tokenManager v)) request) s1)
            s
      | None \<Rightarrow> do_fetch e request s)"

subsection \<open>Fetching the profile\<close>

text \<open>
  \<^verbatim>\<open>fetchProfile(tokenManager = this.user && this.user.tokenManager)\<close>; the argument is
  \<open>None\<close> when the caller passes none. The guard before \<^verbatim>\<open>enforceAuth\<close> is
  \<^verbatim>\<open>!this.user && !tokenManager\<close> in the first listing and \<^verbatim>\<open>!tokenManager\<close> in the second.
  \<^verbatim>\<open>users[0]\<close> of an empty array is \<^verbatim>\<open>undefined\<close>, and \<^verbatim>\<open>delete userData.kind\<close> throws on it.
  The user object keeps the fields of \<^verbatim>\<open>users[0]\<close> but \<^verbatim>\<open>kind\<close>, which is deleted, and
  \<^verbatim>\<open>tokenManager\<close>, which is overwritten.
\<close>

definition userData_of :: "(string \<times> string) list \<Rightarrow> tokenManager \<Rightarrow> session" where
  "userData_of props tm =
     \<lparr>profile = filter (\<lambda>f. fst f \<noteq> ''kind'' \<and> fst f \<noteq> ''tokenManager'') props, tokenManager = tm\<rparr>"

fun guard :: "listing \<Rightarrow> state \<Rightarrow> tokenManager option \<Rightarrow> bool" where
  "guard PersistSession s tm = (user s = None \<and> tm = None)"
| "guard SetState s tm = (tm = None)"

fun keep :: "listing \<Rightarrow> env \<Rightarrow> session \<Rightarrow> unit async" where
  "keep PersistSession e userData = persistSession e userData"
| "keep SetState e userData = setState e (Some userData) True True"

definition fetchProfile :: "listing \<Rightarrow> env \<Rightarrow> tokenManager option \<Rightarrow> unit async" where
  "fetchProfile l e arg s =
     (let tm = (case arg of Some t \<Rightarrow> Some t | None \<Rightarrow> map_option tokenManager (user s)) in
      await (if guard l s tm then enforceAuth l e else return ())
        (\<lambda>_ s1. case tm of
                  None \<Rightarrow> throw (TypeError ''idToken'') s1
                | Some t \<Rightarrow>
                    await (api l e ''lookup'' [(''idToken'', JStr (idToken t))])
                      (\<lambda>d s2. case users (fst d) of
                                [] \<Rightarrow> throw (TypeError ''kind'') s2
                              | props # _ \<Rightarrow> keep l e (userData_of props t) s2)
                      s1)
        s)"

subsection \<open>Sign-in through an identity provider\<close>

text \<open>
  The argument of \<^verbatim>\<open>signInWithProvider\<close>: the name of the provider, or an object.
  \<^verbatim>\<open>oauthScope\<close> is read by the second listing only.
\<close>

record oauthFlowOptions =
  provider :: string
  oauthScope :: "string option"
  o_context :: "string option"
  linkAccount :: bool

datatype options = Name string | Options oauthFlowOptions

fun destructure :: "options \<Rightarrow> oauthFlowOptions" where
  "destructure (Name p) = \<lparr>provider = p, oauthScope = None, o_context = None, linkAccount = False\<rparr>"
| "destructure (Options opts) = opts"

definition jopt :: "string option \<Rightarrow> jv" where
  "jopt v = (case v of None \<Rightarrow> JUndefined | Some t \<Rightarrow> JStr t)"

text \<open>\<^verbatim>\<open>!this.redirectUri\<close>: no redirect URI, or the empty string.\<close>

definition configured :: "state \<Rightarrow> string option" where
  "configured s = (case redirectUri s of None \<Rightarrow> None | Some r \<Rightarrow> if r = [] then None else Some r)"

text \<open>
  The body of the \<^verbatim>\<open>createAuthUri\<close> call; the first listing takes the scope from
  \<^verbatim>\<open>this.providers[provider]\<close>.
\<close>

fun createAuthUri_body :: "listing \<Rightarrow> state \<Rightarrow> string \<Rightarrow> oauthFlowOptions \<Rightarrow> (string \<times> jv) list" where
  "createAuthUri_body PersistSession s r opts =
     [(''providerId'', JStr (provider opts)), (''continueUri'', JStr r),
      (''oauthScope'', jopt (case map_of (providers s) (provider opts) of None \<Rightarrow> None | Some sc \<Rightarrow> sc)),
      (''authFlowType'', JStr ''CODE_FLOW''), (''context'', jopt (o_context opts))]"
| "createAuthUri_body SetState s r opts =
     [(''continueUri'', JStr r), (''authFlowType'', JStr ''CODE_FLOW''),
      (''providerId'', JStr (provider opts)), (''oauthScope'', jopt (oauthScope opts)),
      (''context'', jopt (o_context opts))]"

text \<open>
  The check of the first listing, \<^verbatim>\<open>Object.keys(this.providers).includes(provider)\<close>; the
  second listing has none.
\<close>

fun allowed :: "listing \<Rightarrow> state \<Rightarrow> string \<Rightarrow> bool" where
  "allowed PersistSession s p = (p \<in> set (map fst (providers s)))"
| "allowed SetState s p = True"

definition signInWithProvider :: "listing \<Rightarrow> env \<Rightarrow> options \<Rightarrow> unit async" where
  "signInWithProvider l e opts s =
     (case configured s of
        None \<Rightarrow> throw MissingRedirectTarget s
      | Some r \<Rightarrow>
          await (if linkAccount (destructure opts) then enforceAuth l e else return ())
            (\<lambda>_ s1.
               if \<not> allowed l s1 (provider (destructure opts))
               then throw (UnconfiguredProvider (provider (destructure opts))) s1
               else
                 await (api l e ''createAuthUri'' (createAuthUri_body l s1 r (destructure opts)))
                   (\<lambda>d. await (\<lambda>s2. storage_set e (sKey ''SessionId'' s2) (SText (sessionId (fst d))) s2)
                     (\<lambda>_. await
                        (\<lambda>s3. if linkAccount (destructure opts)
                               then storage_set e (sKey ''LinkAccount'' s3) STrue s3
                               else return () s3)
                        (\<lambda>_ s4. return () (s4\<lparr>href := authUri (fst d)\<rparr>))))
                   s1)
            s)"

text \<open>
  \<^verbatim>\<open>history.replaceState(null, null, location.origin + location.pathname)\<close>: the address
  without its query and fragment.
\<close>

definition replaceState :: "state \<Rightarrow> state" where
  "replaceState s =
     s\<lparr>href := takeWhile (\<lambda>c. c \<noteq> CHR ''?'' \<and> c \<noteq> CHR ''#'') (href s), replaced := Suc (replaced s)\<rparr>"

definition signInWithIdp_body :: "jv \<Rightarrow> string \<Rightarrow> stored option \<Rightarrow> (string \<times> jv) list" where
  "signInWithIdp_body tok requestUri sid =
     [(''idToken'', tok), (''requestUri'', JStr requestUri), (''sessionId'', JStored sid),
      (''returnSecureToken'', JBool True)]"

definition finishProviderSignIn :: "listing \<Rightarrow> env \<Rightarrow> string \<Rightarrow> string async" where
  "finishProviderSignIn l e requestUri s =
     await (storage_get e (sKey ''SessionId'' s))
       (\<lambda>sid. await (\<lambda>s1. storage_get e (sKey ''LinkAccount'' s1) s1)
         (\<lambda>link s2.
            if truthy link \<and> user s2 = None then throw OrphanedLinkAttempt s2
            else
              await (storage_remove e (sKey ''LinkAccount'' s2))
                (\<lambda>_ s3.
                   if truthy link \<and> user s3 = None then throw (TypeError ''tokenManager'') s3
                   else
                     await
                       (api l e ''signInWithIdp''
                          (signInWithIdp_body
                             (if truthy link then jopt (map_option (\<lambda>u. idToken (tokenManager u)) (user s3))
                              else JUndefined)
                             requestUri sid))
                       (\<lambda>d. await
                          (fetchProfile l e
                             (Some \<lparr>idToken = r_idToken (fst d), refreshToken = r_refreshToken (fst d),
                                    expiresAt = snd d\<rparr>))
                          (\<lambda>_ s4. return (r_context (fst d)) (replaceState s4)))
                       s3)
                s2))
       s"

subsection \<open>Construction\<close>

text \<open>
  The arguments of the constructor. An entry of \<^verbatim>\<open>providers\<close> (first listing) is a name or
  an object with a name and a scope; \<^verbatim>\<open>this.providers[name] = scope\<close> for each in turn.
  A name is taken to be an ordinary property name (not \<^verbatim>\<open>__proto__\<close>, whose assignment adds
  no key to the object).
\<close>

datatype ProviderOptions = PName string | PScope string "string option"

fun assign :: "(string \<times> string option) list \<Rightarrow> ProviderOptions \<Rightarrow> (string \<times> string option) list" where
  "assign ps (PName n) = filter (\<lambda>p. fst p \<noteq> n) ps @ [(n, None)]"
| "assign ps (PScope n sc) = filter (\<lambda>p. fst p \<noteq> n) ps @ [(n, sc)]"

record args =
  a_name :: "string option"
  a_apiKey :: string
  a_redirectUri :: "string option"
  a_providers :: "ProviderOptions list"

text \<open>
  The synchronous part of the constructor, over a storage with the given content and a
  page at the given address: the fields of the new instance.
\<close>

definition new_Auth :: "listing \<Rightarrow> args \<Rightarrow> (string \<Rightarrow> stored option) \<Rightarrow> string \<Rightarrow> state" where
  "new_Auth l a st h =
     \<lparr>name = (case a_name a of None \<Rightarrow> ''default'' | Some n \<Rightarrow> n),
      apiKey = a_apiKey a,
      redirectUri = a_redirectUri a,
      providers = (case l of PersistSession \<Rightarrow> foldl assign [] (a_providers a) | SetState \<Rightarrow> []),
      listeners = [],
      user = None,
      ref = False,
      storage = st,
      requests = [],
      notified = [],
      href = h,
      replaced = 0\<rparr>"

text \<open>\<^verbatim>\<open>p.catch(h)\<close>\<close>

definition catch :: "'a async \<Rightarrow> (error \<Rightarrow> 'a async) \<Rightarrow> 'a async" where
  "catch p h s = (case p s of (Rejected x, s') \<Rightarrow> h x s' | (r, s') \<Rightarrow> (r, s'))"

definition unhandled :: "'a outcome \<Rightarrow> error list" where
  "unhandled r = (case r of Rejected x \<Rightarrow> [x] | _ \<Rightarrow> [])"

text \<open>
  The promise chain the constructor starts and does not return: the state when it has
  settled, and the rejections that nothing handles. In the second listing the promise of
  \<^verbatim>\<open>setState(JSON.parse(user), false)\<close> is dropped and the chain
  \<^verbatim>\<open>refreshIdToken().then(() => fetchProfile()).catch(...)\<close> is not returned from the callback.
  The listener that the second listing adds for the \<^verbatim>\<open>storage\<close> event of the window runs
  only when another window writes the storage, and is left out.
\<close>

fun initialize :: "listing \<Rightarrow> env \<Rightarrow> state \<Rightarrow> error list \<times> state" where
  "initialize PersistSession e s =
     (case storage_get e (sKey ''User'' s) s of
        (Resolved v, s1) \<Rightarrow>
          if truthy v then
            (case JSON_parse v of
               Inl x \<Rightarrow> ([x], s1)
             | Inr u \<Rightarrow>
                 (case fetchProfile PersistSession e None (s1\<lparr>user := u\<rparr>) of
                    (r, s2) \<Rightarrow> (unhandled r, s2)))
          else ([], s1)
      | (r, s1) \<Rightarrow> (unhandled r, s1))"
| "initialize SetState e s =
     (case storage_get e (sKey ''User'' s) s of
        (Resolved v, s1) \<Rightarrow>
          (case JSON_parse v of
             Inl x \<Rightarrow> ([x], s1)
           | Inr u \<Rightarrow>
               (case setState e u False True s1 of
                  (r1, s2) \<Rightarrow>
                    if user s2 \<noteq> None then
                      (case catch
                              (await (refreshIdToken SetState e) (\<lambda>_. fetchProfile SetState e None))
                              (\<lambda>x. if message x = ''TOKEN_EXPIRED'' then signOut SetState e else throw x)
                              s2 of
                         (r2, s3) \<Rightarrow> (unhandled r1 @ unhandled r2, s3))
                    else (unhandled r1, s2)))
      | (r, s1) \<Rightarrow> (unhandled r, s1))"

definition construct :: "listing \<Rightarrow> env \<Rightarrow> args \<Rightarrow> (string \<Rightarrow> stored option) \<Rightarrow> string \<Rightarrow> error list \<times> state" where
  "construct l e a st h = initialize l e (new_Auth l a st h)"

subsection \<open>Several calls of refreshIdToken in flight\<close>

text \<open>
  JavaScript runs one call at a time up to its next \<^verbatim>\<open>await\<close>. The events are: a call of
  \<^verbatim>\<open>refreshIdToken\<close> (with the number of the call and \<^verbatim>\<open>Date.now()\<close> then), the settling
  of the \<^verbatim>\<open>fetch\<close> of the \<^verbatim>\<open>token\<close> request, and the settling of the \<^verbatim>\<open>storage.set\<close> that
  follows it. A suspended call is the initiator (it set the handle and leaves through
  \<^verbatim>\<open>finally\<close>) or a joiner (it found the handle set). Calls waiting for the same promise
  continue in the order in which they began to wait.
\<close>

datatype "role" = Owner | Joiner

text \<open>What a call of \<^verbatim>\<open>refreshIdToken\<close> resolves with: nothing, or the response.\<close>

datatype ret = Undefined | Data reply

text \<open>
  No refresh is under way; or the \<^verbatim>\<open>fetch\<close> of the \<^verbatim>\<open>token\<close> request is outstanding; or the
  response has arrived and the \<^verbatim>\<open>storage.set\<close> of the new user object is outstanding.
\<close>

datatype phase = Idle | Requesting | Persisting reply session

text \<open>
  \<open>Response\<close> carries how \<^verbatim>\<open>fetch\<close> settled, \<open>Stored\<close> the message of the rejection when the
  storage adapter rejects the write.
\<close>

datatype event = Invoke nat int | Response "error + response" | Stored "string option"

text \<open>
  The instance, the suspended calls in the order in which they began to wait, the calls
  that have settled with their outcome, in the order of settling, and the number of
  times the \<^verbatim>\<open>finally\<close> block has cleared the handle.
\<close>

record machine =
  auth :: state
  phase :: phase
  waiting :: "(nat \<times> role) list"
  settled :: "(nat \<times> ret outcome) list"
  cleared :: nat

definition start :: "state \<Rightarrow> machine" where
  "start s = \<lparr>auth = s, phase = Idle, waiting = [], settled = [], cleared = 0\<rparr>"

definition settle :: "nat \<Rightarrow> ret outcome \<Rightarrow> machine \<Rightarrow> machine" where
  "settle i r m = m\<lparr>settled := settled m @ [(i, r)]\<rparr>"

text \<open>\<^verbatim>\<open>finally { this._ref = null }\<close>, counted.\<close>

definition clear :: "machine \<Rightarrow> machine" where
  "clear m = m\<lparr>auth := (auth m)\<lparr>ref := False\<rparr>, cleared := Suc (cleared m)\<rparr>"

text \<open>A call that returns nothing: \<^verbatim>\<open>return void (await ...)\<close>, or the end of the body.\<close>

fun void :: "'a outcome \<Rightarrow> ret outcome" where
  "void (Resolved a) = Resolved Undefined"
| "void (Rejected x) = Rejected x"
| "void Pending = Pending"

text \<open>
  A call whose last \<^verbatim>\<open>await\<close> settles with \<open>r\<close>: the joiner of the second listing returns,
  the initiator of either listing leaves the \<^verbatim>\<open>try\<close> block through \<^verbatim>\<open>finally\<close>.
\<close>

fun leave :: "'a outcome \<Rightarrow> machine \<Rightarrow> nat \<times> role \<Rightarrow> machine" where
  "leave r m (i, Owner) = settle i (void r) (clear m)"
| "leave r m (i, Joiner) = settle i (void r) m"

definition leave_all :: "'a outcome \<Rightarrow> machine \<Rightarrow> machine" where
  "leave_all r m = foldl (leave r) (m\<lparr>waiting := [], phase := Idle\<rparr>) (waiting m)"

text \<open>
  First listing, a call waiting for \<^verbatim>\<open>this.refreshRequest\<close>: the joiner returns what the
  request settled with (\<^verbatim>\<open>return await this.refreshRequest\<close>); the initiator goes on to
  \<^verbatim>\<open>persistSession\<close> and waits for its \<^verbatim>\<open>storage.set\<close>, or leaves when the request failed.
\<close>

fun resume :: "reply outcome \<Rightarrow> machine \<Rightarrow> nat \<times> role \<Rightarrow> machine" where
  "resume (Resolved d) m (i, Owner) =
     m\<lparr>phase := Persisting d (spread (user (auth m)) (refreshed d)), waiting := waiting m @ [(i, Owner)]\<rparr>"
| "resume (Resolved d) m (i, Joiner) = settle i (Resolved (Data d)) m"
| "resume r m w = leave r m w"

text \<open>A call that finds the token expired and the handle set.\<close>

fun join :: "listing \<Rightarrow> nat \<Rightarrow> machine \<Rightarrow> machine" where
  "join PersistSession i m =
     (case phase m of
        Persisting d ud \<Rightarrow> settle i (Resolved (Data d)) m
      | _ \<Rightarrow> m\<lparr>waiting := waiting m @ [(i, Joiner)]\<rparr>)"
| "join SetState i m = m\<lparr>waiting := waiting m @ [(i, Joiner)]\<rparr>"

text \<open>
  What is left of \<^verbatim>\<open>persistSession(userData)\<close> (first listing) and of
  \<^verbatim>\<open>setState(userData, true, false)\<close> (second listing) once \<^verbatim>\<open>storage.set\<close> has settled.
\<close>

fun persisted :: "listing \<Rightarrow> env \<Rightarrow> session \<Rightarrow> string option \<Rightarrow> unit async" where
  "persisted PersistSession e ud q s =
     await (settle_write q (put (sKey ''User'' s) (SUser (Some ud))))
       (\<lambda>_ s1. emit e (s1\<lparr>user := Some ud\<rparr>)) s"
| "persisted SetState e ud q s =
     await (settle_write q (put (sKey ''User'' s) (SUser (Some ud)))) (\<lambda>_. return ()) s"

fun step :: "listing \<Rightarrow> env \<Rightarrow> machine \<Rightarrow> event \<Rightarrow> machine" where
  "step l e m (Invoke i t) =
     (case user (auth m) of
        None \<Rightarrow> settle i (Rejected (TypeError ''tokenManager'')) m
      | Some u \<Rightarrow>
          if fresh t (tokenManager u) then settle i (Resolved Undefined) m
          else if ref (auth m) then join l i m
          else m\<lparr>auth := (auth m)\<lparr>requests := requests (auth m) @ [api_request ''token'' (token_body u) (auth m)],
                                   ref := True\<rparr>,
                 phase := Requesting,
                 waiting := waiting m @ [(i, Owner)]\<rparr>)"
| "step l e m (Response r) =
     (case phase m of
        Requesting \<Rightarrow>
          (case l of
             PersistSession \<Rightarrow>
               foldl (resume (api_settle l e r)) (m\<lparr>waiting := [], phase := Idle\<rparr>) (waiting m)
           | SetState \<Rightarrow>
               (case api_settle l e r of
                  Resolved d \<Rightarrow>
                    m\<lparr>auth := (auth m)\<lparr>user := Some (spread (user (auth m)) (refreshed d))\<rparr>,
                      phase := Persisting d (spread (user (auth m)) (refreshed d))\<rparr>
                | x \<Rightarrow> leave_all x m))
      | _ \<Rightarrow> m)"
| "step l e m (Stored q) =
     (case phase m of
        Persisting d ud \<Rightarrow>
          (case persisted l e ud q (auth m) of (r, a) \<Rightarrow> leave_all r (m\<lparr>auth := a\<rparr>))
      | _ \<Rightarrow> m)"

definition run :: "listing \<Rightarrow> env \<Rightarrow> machine \<Rightarrow> event list \<Rightarrow> machine" where
  "run l e m evs = foldl (step l e) m evs"

definition invocations :: "(nat \<times> int) list \<Rightarrow> event list" where
  "invocations calls = map (\<lambda>c. Invoke (fst c) (snd c)) calls"

text \<open>The number of settlements of the \<^verbatim>\<open>token\<close> request among the events.\<close>

fun answers :: "event list \<Rightarrow> nat" where
  "answers [] = 0"
| "answers (Response r # evs) = Suc (answers evs)"
| "answers (ev # evs) = answers evs"

text \<open>Whether a call succeeded, or the error it failed with.\<close>

definition verdict :: "'a outcome \<Rightarrow> unit outcome" where
  "verdict r = (case r of Resolved a \<Rightarrow> Resolved () | Rejected x \<Rightarrow> Rejected x | Pending \<Rightarrow> Pending)"

text \<open>The notifications a listener received, in a part of the log.\<close>

definition received :: "nat \<Rightarrow> (nat \<times> session option) list \<Rightarrow> nat" where
  "received cb log = length (filter (\<lambda>n. fst n = cb) log)"

text \<open>
  What the calls of the instance other than the constructor leave alone: its
  configuration, and the storage under the two keys of a pending provider flow.
\<close>

definition same_instance :: "state \<Rightarrow> state \<Rightarrow> bool" where
  "same_instance s s' \<longleftrightarrow>
     name s' = name s \<and> apiKey s' = apiKey s \<and> redirectUri s' = redirectUri s \<and> providers s' = providers s \<and>
     storage s' (sKey ''SessionId'' s) = storage s (sKey ''SessionId'' s) \<and>
     storage s' (sKey ''LinkAccount'' s) = storage s (sKey ''LinkAccount'' s)"

subsection \<open>Values of the test suite\<close>

text \<open>
  The user, the instance and the responses that test/main.test.js works with; the
  token expires at 3600000. They give the concrete instances of the theorems below.
\<close>

definition mockUserData :: session where
  "mockUserData =
     \<lparr>profile = [(''email'', ''test@example.com'')],
      tokenManager = \<lparr>idToken = ''idTokenString'', refreshToken = ''refreshTokenString'', expiresAt = Some 3600000\<rparr>\<rparr>"

definition mockResponse :: response where
  "mockResponse =
     \<lparr>ok = True, error_message = [],
      data = \<lparr>id_token = ''updated'', refresh_token = ''updated'', r_idToken = ''123'', r_refreshToken = ''456'',
              r_context = ''ctx'', authUri = ''https://accounts.google.com/o/oauth2/auth'',
              sessionId = ''LwtaMnW9snPfIfm9R1rPTosVpY4'',
              users = [[(''kind'', ''identitytoolkit#user''), (''email'', ''test@example.com'')]]\<rparr>,
      date = Some 7200000\<rparr>"

definition expiredResponse :: response where
  "expiredResponse = mockResponse\<lparr>ok := False, error_message := ''TOKEN_EXPIRED''\<rparr>"

definition disabledResponse :: response where
  "disabledResponse = mockResponse\<lparr>ok := False, error_message := ''USER_DISABLED''\<rparr>"

definition mockEnv :: "int \<Rightarrow> response \<Rightarrow> env" where
  "mockEnv t resp =
     \<lparr>now = t, fetch = (\<lambda>n r. Inr resp), faulty = (\<lambda>op. None), throws = (\<lambda>cb. False),
      humanReadableErrors = (\<lambda>m. None)\<rparr>"

text \<open>A storage adapter that rejects every operation.\<close>

definition rejectingEnv :: env where
  "rejectingEnv = (mockEnv 0 mockResponse)\<lparr>faulty := (\<lambda>op. Some ''QuotaExceededError'')\<rparr>"

definition mockArgs :: args where
  "mockArgs = \<lparr>a_name = None, a_apiKey = ''key'', a_redirectUri = Some ''redirectHere'',
               a_providers = [PName ''google.com'']\<rparr>"

definition emptyStorage :: "string \<Rightarrow> stored option" where
  "emptyStorage = Map.empty"

definition userStorage :: "string \<Rightarrow> stored option" where
  "userStorage = Map.empty(''Auth:User:key:default'' \<mapsto> SUser (Some mockUserData))"

definition flowStorage :: "string \<Rightarrow> stored option" where
  "flowStorage = Map.empty(''Auth:SessionId:key:default'' \<mapsto> SText ''LwtaMnW9snPfIfm9R1rPTosVpY4'')"

definition linkStorage :: "string \<Rightarrow> stored option" where
  "linkStorage = flowStorage(''Auth:LinkAccount:key:default'' \<mapsto> STrue)"

definition mockAuth :: "listing \<Rightarrow> (string \<Rightarrow> stored option) \<Rightarrow> state" where
  "mockAuth l st = new_Auth l mockArgs st ''currentUri''"

definition signedIn :: "listing \<Rightarrow> state" where
  "signedIn l = (mockAuth l userStorage)\<lparr>user := Some mockUserData\<rparr>"

text \<open>The user after a refresh answered by \<open>mockResponse\<close>.\<close>

definition updatedUserData :: session where
  "updatedUserData =
     mockUserData\<lparr>tokenManager := \<lparr>idToken = ''updated'', refreshToken = ''updated'', expiresAt = Some 10800000\<rparr>\<rparr>"

section \<open>Auxiliary facts\<close>

subsection \<open>Listeners and storage keys\<close>

lemma forEach_quiet:
  "\<forall>cb \<in> set cbs. \<not> thr cb \<Longrightarrow> forEach thr v cbs = (map (\<lambda>cb. (cb, v)) cbs, None)"
  by (induction cbs) auto

lemma emit_quiet:
  "\<forall>cb \<in> set (listeners s). \<not> throws e cb \<Longrightarrow>
   emit e s = (Resolved (), s\<lparr>notified := notified s @ map (\<lambda>cb. (cb, user s)) (listeners s)\<rparr>)"
  by (simp add: emit_def forEach_quiet)

lemma received_map: "received g (map (\<lambda>cb. (cb, v)) cbs) = count_list cbs g"
  by (induction cbs) (simp_all add: received_def)

lemma user_key_differs:
  "sKey ''User'' s \<noteq> sKey ''SessionId'' s" "sKey ''User'' s \<noteq> sKey ''LinkAccount'' s"
  "sKey ''SessionId'' s \<noteq> sKey ''LinkAccount'' s"
  by (simp_all add: sKey_def)

subsection \<open>What a call leaves alone\<close>

lemma same_instance_keys: "same_instance s s' \<Longrightarrow> sKey k s' = sKey k s"
  by (simp add: same_instance_def sKey_def)

lemma same_instance_refl: "same_instance s s"
  by (simp add: same_instance_def)

lemma same_instance_trans: "same_instance s s1 \<Longrightarrow> same_instance s1 s2 \<Longrightarrow> same_instance s s2"
  by (simp add: same_instance_def sKey_def)

lemma api_same: "same_instance s (snd (api l e ep b s))"
  by (simp add: api_def same_instance_def sKey_def)

lemma emit_same: "same_instance s (snd (emit e s))"
  by (simp add: emit_def same_instance_def sKey_def split: prod.splits)

lemma persistSession_same: "same_instance s (snd (persistSession e ud s))"
  using user_key_differs[of s]
  by (auto simp add: persistSession_def await_def storage_set_def settle_write_def put_def emit_def
      same_instance_def sKey_def split: prod.splits option.splits outcome.splits)

lemma setState_same: "same_instance s (snd (setState e ud p em s))"
  using user_key_differs[of s]
  by (auto simp add: setState_def await_def storage_set_def storage_remove_def settle_write_def put_def del_def emit_def
      return_def same_instance_def sKey_def split: prod.splits option.splits outcome.splits)

lemma await_same:
  assumes "same_instance s (snd (p s))" and "\<And>a s1. same_instance s1 (snd (k a s1))"
  shows "same_instance s (snd (await p k s))"
proof (cases "p s")
  case (Pair r s1)
  with assms(1) have 1: "same_instance s s1" by simp
  show ?thesis
  proof (cases r)
    case (Resolved a)
    with Pair have "await p k s = k a s1" by (simp add: await_def)
    with 1 assms(2)[of s1 a] show ?thesis by (auto intro: same_instance_trans)
  qed (use Pair 1 in \<open>simp_all add: await_def\<close>)
qed

lemma adopt_same: "same_instance s (snd (adopt l e d s))"
  by (cases l) (simp_all add: persistSession_same setState_same)

lemma keep_same: "same_instance s (snd (keep l e ud s))"
  by (cases l) (simp_all add: persistSession_same setState_same)

lemma ref_same: "same_instance s (s\<lparr>ref := b\<rparr>)"
  by (simp add: same_instance_def sKey_def)

lemma refreshIdToken_same: "same_instance s (snd (refreshIdToken l e s))"
proof (cases "user s")
  case None
  then show ?thesis by (simp add: refreshIdToken_def throw_def same_instance_refl)
next
  case (Some u)
  let ?s1 = "(snd (api l e ''token'' (token_body u) s))\<lparr>ref := True\<rparr>"
  have 1: "same_instance s ?s1"
    using api_same[of s l e "''token''" "token_body u"] ref_same same_instance_trans by blast
  have 2: "same_instance ?s1 (snd (await (\<lambda>s2. (fst (api l e ''token'' (token_body u) s), s2)) (adopt l e) ?s1))"
    by (rule await_same) (simp_all add: same_instance_refl adopt_same)
  have 3: "same_instance s (snd (await (\<lambda>s2. (fst (api l e ''token'' (token_body u) s), s2)) (adopt l e) ?s1))"
    using 1 2 same_instance_trans by blast
  show ?thesis
    using Some 3 ref_same same_instance_trans
    by (auto simp add: refreshIdToken_def return_def same_instance_refl try_finally_def
        split: prod.splits outcome.splits)
qed

lemma enforceAuth_same: "same_instance s (snd (enforceAuth l e s))"
  by (simp add: enforceAuth_def throw_def same_instance_refl refreshIdToken_same split: option.splits)

lemma lookup_same:
  "same_instance s1
     (snd (await (api l e ''lookup'' b)
             (\<lambda>d s2. case users (fst d) of [] \<Rightarrow> throw x s2 | props # _ \<Rightarrow> keep l e (userData_of props t) s2) s1))"
  by (rule await_same) (simp_all add: api_same throw_def same_instance_refl keep_same split: list.splits)

lemma fetchProfile_same: "same_instance s (snd (fetchProfile l e arg s))"
  unfolding fetchProfile_def Let_def
  by (rule await_same)
    (simp_all add: enforceAuth_same return_def same_instance_refl throw_def lookup_same split: option.splits)

lemma replaceState_same: "same_instance s (replaceState s)"
  by (simp add: same_instance_def replaceState_def sKey_def)

lemma exchange_same:
  "same_instance s3
     (snd (await (api l e ''signInWithIdp'' b)
        (\<lambda>d. await (fetchProfile l e (Some (tm d))) (\<lambda>_ s4. return (c d) (replaceState s4))) s3))"
  apply (rule await_same)
   apply (rule api_same)
  apply (rule await_same)
   apply (rule fetchProfile_same)
  apply (simp add: return_def replaceState_same)
  done

subsection \<open>Requests issued\<close>

lemma emit_requests: "requests (snd (emit e s)) = requests s"
  by (simp add: emit_def split: prod.splits)

lemma setState_requests: "requests (snd (setState e ud p em s)) = requests s"
  by (auto simp add: setState_def await_def storage_set_def storage_remove_def settle_write_def put_def del_def
      emit_def return_def split: prod.splits option.splits outcome.splits)

lemma persistSession_requests: "requests (snd (persistSession e ud s)) = requests s"
  by (auto simp add: persistSession_def await_def storage_set_def settle_write_def put_def emit_def
      split: prod.splits option.splits outcome.splits)

lemma keep_requests: "requests (snd (keep l e ud s)) = requests s"
  by (cases l) (simp_all add: setState_requests persistSession_requests)

lemma signOut_requests: "requests (snd (signOut l e s)) = requests s"
  by (cases l)
    (auto simp add: setState_requests await_def storage_remove_def settle_write_def del_def emit_def
      split: prod.splits option.splits outcome.splits)

lemma signOut_quiet:
  assumes "faulty e (Remove (sKey ''User'' s)) = None"
    and "\<forall>cb \<in> set (listeners s). \<not> throws e cb"
  shows "signOut l e s =
           (Resolved (), s\<lparr>user := None, storage := (storage s)(sKey ''User'' s := None),
                           notified := notified s @ map (\<lambda>cb. (cb, None)) (listeners s)\<rparr>)"
  using assms
  by (cases l)
    (simp_all add: setState_def await_def storage_remove_def settle_write_def emit_quiet del_def sKey_def)

lemma fetchProfile_requests:
  assumes "user s = Some u"
  shows "requests (snd (fetchProfile l e None s)) =
           requests s @ [api_request ''lookup'' [(''idToken'', JStr (idToken (tokenManager u)))] s]"
proof -
  have g: "guard l s (Some (tokenManager u)) = False" using assms by (cases l) simp_all
  have k: "requests (snd (case xs of [] \<Rightarrow> throw x s2 | props # _ \<Rightarrow> keep l e (userData_of props t) s2)) = requests s2"
    for xs x s2 t
    by (cases xs) (simp_all add: throw_def keep_requests)
  show ?thesis
    using assms g
    by (simp add: fetchProfile_def await_def return_def api_def k split: outcome.splits prod.splits)
qed

lemma catch_requests:
  assumes "\<And>x s1. requests (snd (h x s1)) = requests s1"
  shows "requests (snd (catch p h s)) = requests (snd (p s))"
  using assms by (auto simp add: catch_def split: prod.splits outcome.splits)

lemma handler_requests:
  "requests (snd ((if message x = ''TOKEN_EXPIRED'' then signOut SetState e else throw x) s)) = requests s"
  by (simp add: signOut_requests throw_def del: signOut.simps)

subsection \<open>Successful awaits\<close>

lemma await_Resolved:
  "await p k s = (Resolved b, s') \<Longrightarrow> \<exists>a s1. p s = (Resolved a, s1) \<and> k a s1 = (Resolved b, s')"
  by (auto simp add: await_def split: prod.splits outcome.splits)

lemma api_Resolved:
  assumes "api l e ep b s = (Resolved d, s')"
  obtains resp where "fetch e (length (requests s)) (api_request ep b s) = Inr resp" and "ok resp"
    and "fst d = data resp" and "s' = s\<lparr>requests := requests s @ [api_request ep b s]\<rparr>"
  using assms by (auto simp add: api_def api_settle_def split: sum.splits if_splits)

lemma signIn_success:
  assumes "signInWithProvider l e opts s = (Resolved (), s')"
  shows "\<exists>resp. fetch e (length (requests s') - 1) (last (requests s')) = Inr resp \<and> ok resp \<and>
          url (last (requests s')) = endpoint_url ''createAuthUri'' s \<and>
          storage s' (sKey ''SessionId'' s) = Some (SText (sessionId (data resp))) \<and>
          storage s' (sKey ''LinkAccount'' s) =
            (if linkAccount (destructure opts) then Some STrue else storage s (sKey ''LinkAccount'' s)) \<and>
          href s' = authUri (data resp)"
proof -
  let ?o = "destructure opts"
  from assms obtain r where r: "configured s = Some r"
    by (cases "configured s") (auto simp add: signInWithProvider_def throw_def)
  let ?rest = "\<lambda>s1. await (api l e ''createAuthUri'' (createAuthUri_body l s1 r ?o))
                   (\<lambda>d. await (\<lambda>s2. storage_set e (sKey ''SessionId'' s2) (SText (sessionId (fst d))) s2)
                     (\<lambda>_. await
                        (\<lambda>s3. if linkAccount ?o
                               then storage_set e (sKey ''LinkAccount'' s3) STrue s3
                               else return () s3)
                        (\<lambda>_ s4. return () (s4\<lparr>href := authUri (fst d)\<rparr>))))
                   s1"
  from assms r have "await (if linkAccount ?o then enforceAuth l e else return ())
      (\<lambda>_ s1. if \<not> allowed l s1 (provider ?o) then throw (UnconfiguredProvider (provider ?o)) s1 else ?rest s1) s
      = (Resolved (), s')"
    by (simp add: signInWithProvider_def)
  from await_Resolved[OF this] obtain s1 where
    1: "(if linkAccount ?o then enforceAuth l e else return ()) s = (Resolved (), s1)"
    and 2: "?rest s1 = (Resolved (), s')"
    by (auto simp add: throw_def split: if_splits)
  have same: "same_instance s s1"
    using 1 enforceAuth_same[of s l e] by (auto simp add: return_def same_instance_refl split: if_splits)
  from await_Resolved[OF 2] obtain d s2 where
    3: "api l e ''createAuthUri'' (createAuthUri_body l s1 r ?o) s1 = (Resolved d, s2)"
    and 4: "await (\<lambda>s2. storage_set e (sKey ''SessionId'' s2) (SText (sessionId (fst d))) s2)
                     (\<lambda>_. await
                        (\<lambda>s3. if linkAccount ?o
                               then storage_set e (sKey ''LinkAccount'' s3) STrue s3
                               else return () s3)
                        (\<lambda>_ s4. return () (s4\<lparr>href := authUri (fst d)\<rparr>))) s2 = (Resolved (), s')"
    by blast
  from 3 obtain resp where
    5: "fetch e (length (requests s1)) (api_request ''createAuthUri'' (createAuthUri_body l s1 r ?o) s1) = Inr resp"
    and 6: "ok resp" and 7: "fst d = data resp"
    and 8: "s2 = s1\<lparr>requests := requests s1 @ [api_request ''createAuthUri'' (createAuthUri_body l s1 r ?o) s1]\<rparr>"
    by (auto elim!: api_Resolved)
  have keys: "sKey ''SessionId'' s1 = sKey ''SessionId'' s" "sKey ''LinkAccount'' s1 = sKey ''LinkAccount'' s"
    using same by (simp_all add: same_instance_keys)
  have stor: "storage s1 (sKey ''LinkAccount'' s) = storage s (sKey ''LinkAccount'' s)"
    using same by (simp add: same_instance_def)
  have url: "endpoint_url ''createAuthUri'' s1 = endpoint_url ''createAuthUri'' s"
    using same by (simp add: endpoint_url_def same_instance_def)
  have s': "s' = (if linkAccount ?o then put (sKey ''LinkAccount'' s) STrue else id)
                   (put (sKey ''SessionId'' s) (SText (sessionId (data resp))) s2)\<lparr>href := authUri (data resp)\<rparr>"
    using 4 7 8 keys user_key_differs[of s]
    by (auto simp add: await_def storage_set_def settle_write_def return_def put_def sKey_def
        split: option.splits if_splits)
  show ?thesis
    using 5 6 8 s' stor url user_key_differs[of s]
    by (intro exI[of _ resp]) (auto simp add: put_def api_request_def)
qed

subsection \<open>The promise chain of the constructor\<close>

lemma adopt_empty:
  assumes "listeners s = []"
  shows "setState e u False True s = (Resolved (), s\<lparr>user := u\<rparr>)"
  using assms by (simp add: setState_def await_def return_def emit_def)

lemma init_absent:
  assumes "faulty e (Get (sKey ''User'' s)) = None" "storage s (sKey ''User'' s) = None"
    "listeners s = []" "user s = None"
  shows "initialize l e s = ([], s)"
  using assms by (cases l) (simp_all add: storage_get_def adopt_empty unhandled_def)

lemma init_expired_rejected:
  assumes "faulty e (Get (sKey ''User'' s)) = None" "storage s (sKey ''User'' s) = Some (SUser (Some u))"
    "listeners s = []" "\<not> ref s" "\<not> fresh (now e) (tokenManager u)"
    "api_settle SetState e (fetch e (length (requests s)) (api_request ''token'' (token_body u) s)) = Rejected x"
  shows "message x = ''TOKEN_EXPIRED'' \<Longrightarrow> faulty e (Remove (sKey ''User'' s)) = None \<Longrightarrow>
         initialize SetState e s =
           ([], s\<lparr>user := None, storage := (storage s)(sKey ''User'' s := None),
                  requests := requests s @ [api_request ''token'' (token_body u) s]\<rparr>)"
    and "message x \<noteq> ''TOKEN_EXPIRED'' \<Longrightarrow>
         initialize SetState e s =
           ([x], s\<lparr>user := Some u, requests := requests s @ [api_request ''token'' (token_body u) s]\<rparr>)"
  using assms
  by (simp_all add: storage_get_def adopt_empty unhandled_def catch_def await_def refreshIdToken_def
      try_finally_def api_def setState_def storage_remove_def settle_write_def del_def emit_def return_def
      throw_def sKey_def api_request_def endpoint_url_def)

lemma init_present:
  assumes "faulty e (Get (sKey ''User'' s)) = None" "storage s (sKey ''User'' s) = Some (SUser (Some u))"
    "listeners s = []"
  shows "requests (snd (initialize SetState e s)) =
           requests (snd (await (refreshIdToken SetState e) (\<lambda>_. fetchProfile SetState e None) (s\<lparr>user := Some u\<rparr>)))"
proof -
  let ?h = "\<lambda>x. if message x = ''TOKEN_EXPIRED'' then signOut SetState e else throw x"
  let ?p = "await (refreshIdToken SetState e) (\<lambda>_. fetchProfile SetState e None)"
  have "initialize SetState e s =
        (case catch ?p ?h (s\<lparr>user := Some u\<rparr>) of (r2, s3) \<Rightarrow> (unhandled (Resolved ()) @ unhandled r2, s3))"
    using assms by (simp add: storage_get_def adopt_empty)
  then have "snd (initialize SetState e s) = snd (catch ?p ?h (s\<lparr>user := Some u\<rparr>))"
    by (simp split: prod.splits)
  then show ?thesis
    using catch_requests[of ?h ?p "s\<lparr>user := Some u\<rparr>", OF handler_requests] by simp
qed

lemma init_fresh:
  assumes "faulty e (Get (sKey ''User'' s)) = None" "storage s (sKey ''User'' s) = Some (SUser (Some u))"
    "listeners s = []" "fresh (now e) (tokenManager u)"
  shows "requests (snd (initialize SetState e s)) =
           requests s @ [api_request ''lookup'' [(''idToken'', JStr (idToken (tokenManager u)))] s]"
proof -
  let ?s2 = "s\<lparr>user := Some u\<rparr>"
  have 1: "refreshIdToken SetState e ?s2 = (Resolved (), ?s2)"
    using assms(4) by (simp add: refreshIdToken_def return_def)
  have 2: "requests (snd (fetchProfile SetState e None ?s2)) =
      requests s @ [api_request ''lookup'' [(''idToken'', JStr (idToken (tokenManager u)))] s]"
    using fetchProfile_requests[of ?s2 u SetState e] by (simp add: api_request_def endpoint_url_def)
  show ?thesis
    using init_present[OF assms(1-3)] 1 2 by (simp add: await_def)
qed

lemma init_refreshed:
  assumes "faulty e (Get (sKey ''User'' s)) = None" "storage s (sKey ''User'' s) = Some (SUser (Some u))"
    "listeners s = []" "\<not> ref s" "\<not> fresh (now e) (tokenManager u)"
    "api_settle SetState e (fetch e (length (requests s)) (api_request ''token'' (token_body u) s)) = Resolved d"
    "faulty e (Set (sKey ''User'' s) (SUser (Some (u\<lparr>tokenManager := refreshed d\<rparr>)))) = None"
  shows "requests (snd (initialize SetState e s)) =
           requests s @ [api_request ''token'' (token_body u) s,
                         api_request ''lookup'' [(''idToken'', JStr (id_token (fst d)))] s]"
proof -
  let ?s2 = "s\<lparr>user := Some u\<rparr>"
  let ?u' = "u\<lparr>tokenManager := refreshed d\<rparr>"
  let ?s3 = "s\<lparr>user := Some ?u', storage := (storage s)(sKey ''User'' s \<mapsto> SUser (Some ?u')),
               requests := requests s @ [api_request ''token'' (token_body u) s]\<rparr>"
  have 1: "refreshIdToken SetState e ?s2 = (Resolved (), ?s3)"
    using assms(4-7)
    by (simp add: refreshIdToken_def try_finally_def api_def await_def setState_def storage_set_def
        settle_write_def put_def return_def spread_def sKey_def api_request_def endpoint_url_def)
  have 2: "requests (snd (fetchProfile SetState e None ?s3)) =
      requests ?s3 @ [api_request ''lookup'' [(''idToken'', JStr (id_token (fst d)))] s]"
    using fetchProfile_requests[of ?s3 ?u' SetState e]
    by (simp add: api_request_def endpoint_url_def refreshed_def)
  show ?thesis
    using init_present[OF assms(1-3)] 1 2 by (simp add: await_def)
qed

lemma init_first_listing:
  assumes "faulty e (Get (sKey ''User'' s)) = None" "storage s (sKey ''User'' s) = Some (SUser (Some u))"
  shows "requests (snd (initialize PersistSession e s)) =
           requests s @ [api_request ''lookup'' [(''idToken'', JStr (idToken (tokenManager u)))] s]"
proof -
  have "api_request ep b (s\<lparr>user := Some u\<rparr>) = api_request ep b s" for ep b
    by (simp add: api_request_def endpoint_url_def)
  then have "requests (snd (fetchProfile PersistSession e None (s\<lparr>user := Some u\<rparr>))) =
      requests s @ [api_request ''lookup'' [(''idToken'', JStr (idToken (tokenManager u)))] s]"
    using fetchProfile_requests[of "s\<lparr>user := Some u\<rparr>" u PersistSession e] by simp
  moreover have "snd (initialize PersistSession e s) = snd (fetchProfile PersistSession e None (s\<lparr>user := Some u\<rparr>))"
    using assms by (simp add: storage_get_def split: prod.splits)
  ultimately show ?thesis by simp
qed

lemma init_first_listing_rejected:
  assumes "faulty e (Get (sKey ''User'' s)) = None" "storage s (sKey ''User'' s) = Some (SUser (Some u))"
    and "api_settle PersistSession e
           (fetch e (length (requests s)) (api_request ''lookup'' [(''idToken'', JStr (idToken (tokenManager u)))] s)) =
         Rejected x"
  shows "initialize PersistSession e s =
           ([x], s\<lparr>user := Some u,
                   requests := requests s @ [api_request ''lookup'' [(''idToken'', JStr (idToken (tokenManager u)))] s]\<rparr>)"
  using assms
  by (simp add: storage_get_def fetchProfile_def await_def return_def api_def unhandled_def
      api_request_def endpoint_url_def)

subsection \<open>Calls in flight\<close>

lemma first_call:
  assumes "user s = Some u" "\<not> ref s" "\<not> fresh t (tokenManager u)"
  shows "step l e (start s) (Invoke i t) =
           \<lparr>auth = s\<lparr>requests := requests s @ [api_request ''token'' (token_body u) s], ref := True\<rparr>,
            phase = Requesting, waiting = [(i, Owner)], settled = [], cleared = 0\<rparr>"
  using assms by (simp add: start_def)

lemma later_calls:
  assumes "user (auth m) = Some u" "ref (auth m)" "phase m = Requesting"
    "\<forall>c \<in> set calls. \<not> fresh (snd c) (tokenManager u)"
  shows "foldl (step l e) m (invocations calls) = m\<lparr>waiting := waiting m @ map (\<lambda>c. (fst c, Joiner)) calls\<rparr>"
  using assms
proof (induction calls arbitrary: m)
  case Nil
  then show ?case by (simp add: invocations_def)
next
  case (Cons c calls)
  let ?m1 = "m\<lparr>waiting := waiting m @ [(fst c, Joiner)]\<rparr>"
  have 1: "step l e m (Invoke (fst c) (snd c)) = ?m1"
    using Cons.prems by (cases l) simp_all
  have "foldl (step l e) ?m1 (invocations calls) = ?m1\<lparr>waiting := waiting ?m1 @ map (\<lambda>c. (fst c, Joiner)) calls\<rparr>"
    using Cons.prems by (intro Cons.IH) simp_all
  with 1 show ?case by (simp add: invocations_def)
qed

lemma joiners_leave:
  "foldl (leave r) m (map (\<lambda>c. (fst c, Joiner)) cs) = m\<lparr>settled := settled m @ map (\<lambda>c. (fst c, void r)) cs\<rparr>"
  by (induction cs arbitrary: m) (simp_all add: settle_def)

lemma joiners_resume:
  "foldl (resume r) m (map (\<lambda>c. (fst c, Joiner)) cs) =
     m\<lparr>settled := settled m @ map (\<lambda>c. (fst c, (case r of Resolved d \<Rightarrow> Resolved (Data d) | Rejected x \<Rightarrow> Rejected x | Pending \<Rightarrow> Pending))) cs\<rparr>"
  by (induction cs arbitrary: m) (simp_all add: settle_def split: outcome.splits)

lemma all_suspended:
  assumes "user s = Some u" "\<not> ref s" "\<forall>c \<in> set (c0 # cs). \<not> fresh (snd c) (tokenManager u)"
  shows "run l e (start s) (invocations (c0 # cs)) =
           \<lparr>auth = s\<lparr>requests := requests s @ [api_request ''token'' (token_body u) s], ref := True\<rparr>,
            phase = Requesting, waiting = (fst c0, Owner) # map (\<lambda>c. (fst c, Joiner)) cs, settled = [], cleared = 0\<rparr>"
proof -
  let ?m1 = "\<lparr>auth = s\<lparr>requests := requests s @ [api_request ''token'' (token_body u) s], ref := True\<rparr>,
            phase = Requesting, waiting = [(fst c0, Owner)], settled = [], cleared = 0\<rparr>"
  have "step l e (start s) (Invoke (fst c0) (snd c0)) = ?m1"
    using assms by (intro first_call) simp_all
  moreover have "foldl (step l e) ?m1 (invocations cs) = ?m1\<lparr>waiting := waiting ?m1 @ map (\<lambda>c. (fst c, Joiner)) cs\<rparr>"
    using assms by (intro later_calls[where u = u]) simp_all
  ultimately show ?thesis by (simp add: run_def invocations_def)
qed

lemma everyone_leaves:
  assumes "waiting m = (i0, Owner) # map (\<lambda>c. (fst c, Joiner)) cs"
  shows "leave_all r m =
           m\<lparr>auth := (auth m)\<lparr>ref := False\<rparr>, phase := Idle, waiting := [],
             settled := settled m @ (i0, void r) # map (\<lambda>c. (fst c, void r)) cs, cleared := Suc (cleared m)\<rparr>"
  using assms by (simp add: leave_all_def joiners_leave settle_def clear_def)

lemma response_first_listing:
  assumes "waiting m = (i0, Owner) # map (\<lambda>c. (fst c, Joiner)) cs" "phase m = Requesting"
  shows "step PersistSession e m (Response r) =
     (case api_settle PersistSession e r of
        Resolved d \<Rightarrow>
          m\<lparr>phase := Persisting d (spread (user (auth m)) (refreshed d)), waiting := [(i0, Owner)],
            settled := settled m @ map (\<lambda>c. (fst c, Resolved (Data d))) cs\<rparr>
      | x \<Rightarrow>
          m\<lparr>auth := (auth m)\<lparr>ref := False\<rparr>, phase := Idle, waiting := [],
            settled := settled m @ (i0, void x) # map (\<lambda>c. (fst c, void x)) cs, cleared := Suc (cleared m)\<rparr>)"
proof (cases "api_settle PersistSession e r")
  case (Resolved d)
  then show ?thesis using assms by (simp add: joiners_resume)
next
  case (Rejected x)
  then show ?thesis using assms
    by (simp add: joiners_resume settle_def clear_def)
next
  case Pending
  then show ?thesis using assms
    by (simp add: joiners_resume settle_def clear_def)
qed

lemma response_second_listing:
  assumes "waiting m = (i0, Owner) # map (\<lambda>c. (fst c, Joiner)) cs" "phase m = Requesting"
  shows "step SetState e m (Response r) =
     (case api_settle SetState e r of
        Resolved d \<Rightarrow>
          m\<lparr>auth := (auth m)\<lparr>user := Some (spread (user (auth m)) (refreshed d))\<rparr>,
            phase := Persisting d (spread (user (auth m)) (refreshed d))\<rparr>
      | x \<Rightarrow>
          m\<lparr>auth := (auth m)\<lparr>ref := False\<rparr>, phase := Idle, waiting := [],
            settled := settled m @ (i0, void x) # map (\<lambda>c. (fst c, void x)) cs, cleared := Suc (cleared m)\<rparr>)"
  using assms by (simp add: everyone_leaves split: outcome.splits)

lemma stored_step:
  assumes "waiting m = (i0, Owner) # map (\<lambda>c. (fst c, Joiner)) cs" "phase m = Persisting d ud"
  shows "step l e m (Stored q) =
     (case persisted l e ud q (auth m) of
        (r, a) \<Rightarrow> m\<lparr>auth := a\<lparr>ref := False\<rparr>, phase := Idle, waiting := [],
            settled := settled m @ (i0, void r) # map (\<lambda>c. (fst c, void r)) cs, cleared := Suc (cleared m)\<rparr>)"
  using assms by (simp add: everyone_leaves split: prod.splits)

lemma persisted_frame:
  "requests (snd (persisted l e ud q a)) = requests a"
  by (cases l) (auto simp add: await_def settle_write_def put_def emit_def return_def split: option.splits prod.splits)

lemma persisted_quiet:
  assumes "\<forall>g \<in> set (listeners a). \<not> throws e g"
  shows "fst (persisted l e ud None a) = Resolved ()"
  using assms
  by (cases l) (auto simp add: await_def settle_write_def put_def emit_def return_def forEach_quiet)

lemma run_append: "run l e m (xs @ ys) = run l e (run l e m xs) ys"
  by (simp add: run_def)

lemma run_one: "run l e m [x] = step l e m x"
  by (simp add: run_def)

lemma run_two: "run l e m [x, y] = step l e (step l e m x) y"
  by (simp add: run_def)

lemma api_settle_not_Pending: "api_settle l e r \<noteq> Pending"
  by (simp add: api_settle_def split: sum.splits)

lemma settled_second_listing:
  assumes "user s = Some u" "\<not> ref s" "\<forall>c \<in> set (c0 # cs). \<not> fresh (snd c) (tokenManager u)"
  shows "\<exists>ro a. requests a = requests s @ [api_request ''token'' (token_body u) s] \<and>
      run SetState e (start s) (invocations (c0 # cs) @ [Response r, Stored q]) =
        \<lparr>auth = a\<lparr>ref := False\<rparr>, phase = Idle, waiting = [],
         settled = map (\<lambda>c. (fst c, ro)) (c0 # cs), cleared = 1\<rparr>"
proof -
  define m1 where "m1 = run SetState e (start s) (invocations (c0 # cs))"
  define m2 where "m2 = step SetState e m1 (Response r)"
  have m1: "m1 = \<lparr>auth = s\<lparr>requests := requests s @ [api_request ''token'' (token_body u) s], ref := True\<rparr>,
            phase = Requesting, waiting = (fst c0, Owner) # map (\<lambda>c. (fst c, Joiner)) cs, settled = [], cleared = 0\<rparr>"
    unfolding m1_def by (rule all_suspended[OF assms])
  have w: "waiting m1 = (fst c0, Owner) # map (\<lambda>c. (fst c, Joiner)) cs" and p: "phase m1 = Requesting"
    by (simp_all add: m1)
  have whole: "run SetState e (start s) (invocations (c0 # cs) @ [Response r, Stored q]) = step SetState e m2 (Stored q)"
    by (simp add: run_append run_two m1_def m2_def)
  show ?thesis
  proof (cases "api_settle SetState e r")
    case (Resolved d)
    define ud where "ud = spread (user (auth m1)) (refreshed d)"
    have m2: "m2 = m1\<lparr>auth := (auth m1)\<lparr>user := Some ud\<rparr>, phase := Persisting d ud\<rparr>"
      unfolding m2_def ud_def using response_second_listing[OF w p, of e r] Resolved by simp
    obtain r' a where pa: "persisted SetState e ud q (auth m2) = (r', a)"
      by (cases "persisted SetState e ud q (auth m2)")
    have "requests a = requests (auth m2)"
      using persisted_frame[of SetState e ud q "auth m2"] pa by simp
    then have ra: "requests a = requests s @ [api_request ''token'' (token_body u) s]"
      by (simp add: m2 m1)
    have w2: "waiting m2 = (fst c0, Owner) # map (\<lambda>c. (fst c, Joiner)) cs" and p2: "phase m2 = Persisting d ud"
      by (simp_all add: m2 m1)
    have "step SetState e m2 (Stored q) =
        \<lparr>auth = a\<lparr>ref := False\<rparr>, phase = Idle, waiting = [],
         settled = map (\<lambda>c. (fst c, void r')) (c0 # cs), cleared = 1\<rparr>"
      using stored_step[OF w2 p2, of SetState e q] pa by (simp add: m2 m1)
    with ra whole show ?thesis by (intro exI[of _ "void r'"] exI[of _ a]) simp
  next
    case (Rejected x)
    have "m2 =
        \<lparr>auth = (auth m1)\<lparr>ref := False\<rparr>, phase = Idle, waiting = [],
         settled = map (\<lambda>c. (fst c, void (Rejected x :: unit outcome))) (c0 # cs), cleared = 1\<rparr>"
      unfolding m2_def using response_second_listing[OF w p, of e r] Rejected by (simp add: m1)
    then have "step SetState e m2 (Stored q) =
        \<lparr>auth = (auth m1)\<lparr>ref := False\<rparr>, phase = Idle, waiting = [],
         settled = map (\<lambda>c. (fst c, void (Rejected x :: unit outcome))) (c0 # cs), cleared = 1\<rparr>"
      by simp
    moreover have "requests (auth m1) = requests s @ [api_request ''token'' (token_body u) s]"
      by (simp add: m1)
    ultimately show ?thesis using whole by (intro exI[of _ "Rejected x"] exI[of _ "auth m1"]) simp
  next
    case Pending
    then show ?thesis by (simp add: api_settle_not_Pending)
  qed
qed

lemma settled_first_listing:
  assumes "user s = Some u" "\<not> ref s" "\<forall>c \<in> set (c0 # cs). \<not> fresh (snd c) (tokenManager u)"
  shows "\<exists>a. requests a = requests s @ [api_request ''token'' (token_body u) s] \<and>
      ((\<exists>d r'. api_settle PersistSession e r = Resolved d \<and>
           (q = None \<and> (\<forall>g \<in> set (listeners s). \<not> throws e g) \<longrightarrow> r' = Resolved ()) \<and>
           run PersistSession e (start s) (invocations (c0 # cs) @ [Response r, Stored q]) =
             \<lparr>auth = a\<lparr>ref := False\<rparr>, phase = Idle, waiting = [],
              settled = map (\<lambda>c. (fst c, Resolved (Data d))) cs @ [(fst c0, void (r' :: unit outcome))], cleared = 1\<rparr>)
       \<or> (\<exists>x. api_settle PersistSession e r = Rejected x \<and>
           run PersistSession e (start s) (invocations (c0 # cs) @ [Response r, Stored q]) =
             \<lparr>auth = a\<lparr>ref := False\<rparr>, phase = Idle, waiting = [],
              settled = map (\<lambda>c. (fst c, Rejected x)) (c0 # cs), cleared = 1\<rparr>))"
proof -
  define m1 where "m1 = run PersistSession e (start s) (invocations (c0 # cs))"
  define m2 where "m2 = step PersistSession e m1 (Response r)"
  have m1: "m1 = \<lparr>auth = s\<lparr>requests := requests s @ [api_request ''token'' (token_body u) s], ref := True\<rparr>,
            phase = Requesting, waiting = (fst c0, Owner) # map (\<lambda>c. (fst c, Joiner)) cs, settled = [], cleared = 0\<rparr>"
    unfolding m1_def by (rule all_suspended[OF assms])
  have w: "waiting m1 = (fst c0, Owner) # map (\<lambda>c. (fst c, Joiner)) cs" and p: "phase m1 = Requesting"
    by (simp_all add: m1)
  have whole: "run PersistSession e (start s) (invocations (c0 # cs) @ [Response r, Stored q]) =
      step PersistSession e m2 (Stored q)"
    by (simp add: run_append run_two m1_def m2_def)
  show ?thesis
  proof (cases "api_settle PersistSession e r")
    case (Resolved d)
    define ud where "ud = spread (user (auth m1)) (refreshed d)"
    have m2: "m2 = m1\<lparr>phase := Persisting d ud, waiting := [(fst c0, Owner)],
                      settled := map (\<lambda>c. (fst c, Resolved (Data d))) cs\<rparr>"
      unfolding m2_def ud_def using response_first_listing[OF w p, of e r] Resolved by (simp add: m1)
    obtain r' a where pa: "persisted PersistSession e ud q (auth m2) = (r', a)"
      by (cases "persisted PersistSession e ud q (auth m2)")
    have "requests a = requests (auth m2)"
      using persisted_frame[of PersistSession e ud q "auth m2"] pa by simp
    then have ra: "requests a = requests s @ [api_request ''token'' (token_body u) s]"
      by (simp add: m2 m1)
    have quiet: "r' = Resolved ()" if "q = None" "\<forall>g \<in> set (listeners s). \<not> throws e g"
      using persisted_quiet[of "auth m2" e PersistSession ud] pa that by (simp add: m2 m1)
    have w2: "waiting m2 = (fst c0, Owner) # map (\<lambda>c. (fst c, Joiner)) []" and p2: "phase m2 = Persisting d ud"
      by (simp_all add: m2 m1)
    have "step PersistSession e m2 (Stored q) =
        \<lparr>auth = a\<lparr>ref := False\<rparr>, phase = Idle, waiting = [],
         settled = map (\<lambda>c. (fst c, Resolved (Data d))) cs @ [(fst c0, void r')], cleared = 1\<rparr>"
      using stored_step[OF w2 p2, of PersistSession e q] pa by (simp add: m2 m1)
    with ra whole quiet Resolved show ?thesis
      by (intro exI[of _ a] conjI disjI1 exI[of _ d] exI[of _ r']) simp_all
  next
    case (Rejected x)
    have "m2 =
        \<lparr>auth = (auth m1)\<lparr>ref := False\<rparr>, phase = Idle, waiting = [],
         settled = map (\<lambda>c. (fst c, Rejected x)) (c0 # cs), cleared = 1\<rparr>"
      unfolding m2_def using response_first_listing[OF w p, of e r] Rejected by (simp add: m1)
    then have "step PersistSession e m2 (Stored q) =
        \<lparr>auth = (auth m1)\<lparr>ref := False\<rparr>, phase = Idle, waiting = [],
         settled = map (\<lambda>c. (fst c, Rejected x)) (c0 # cs), cleared = 1\<rparr>"
      by simp
    moreover have "requests (auth m1) = requests s @ [api_request ''token'' (token_body u) s]"
      by (simp add: m1)
    ultimately show ?thesis using whole Rejected
      by (intro exI[of _ "auth m1"] conjI disjI2 exI[of _ x]) simp_all
  next
    case Pending
    then show ?thesis by (simp add: api_settle_not_Pending)
  qed
qed

lemma held_while_persisting:
  assumes "user s = Some u" "\<not> ref s" "\<forall>c \<in> set (c0 # cs). \<not> fresh (snd c) (tokenManager u)"
    and "api_settle l e r = Resolved d"
  shows "ref (auth (run l e (start s) (invocations (c0 # cs) @ [Response r]))) \<and>
         cleared (run l e (start s) (invocations (c0 # cs) @ [Response r])) = 0 \<and>
         requests (auth (run l e (start s) (invocations (c0 # cs) @ [Response r]))) =
           requests s @ [api_request ''token'' (token_body u) s]"
proof -
  define m1 where "m1 = run l e (start s) (invocations (c0 # cs))"
  have m1: "m1 = \<lparr>auth = s\<lparr>requests := requests s @ [api_request ''token'' (token_body u) s], ref := True\<rparr>,
            phase = Requesting, waiting = (fst c0, Owner) # map (\<lambda>c. (fst c, Joiner)) cs, settled = [], cleared = 0\<rparr>"
    unfolding m1_def by (rule all_suspended[OF assms(1-3)])
  have w: "waiting m1 = (fst c0, Owner) # map (\<lambda>c. (fst c, Joiner)) cs" and p: "phase m1 = Requesting"
    by (simp_all add: m1)
  have whole: "run l e (start s) (invocations (c0 # cs) @ [Response r]) = step l e m1 (Response r)"
    unfolding run_append run_one m1_def ..
  show ?thesis
  proof (cases l)
    case PersistSession
    with assms(4) whole response_first_listing[OF w p, of e r] show ?thesis by (simp add: m1)
  next
    case SetState
    with assms(4) whole response_second_listing[OF w p, of e r] show ?thesis by (simp add: m1)
  qed
qed

text \<open>
  The two models agree: one call on its own, followed by the settling of its request and
  of its write, ends as \<^verbatim>\<open>refreshIdToken\<close> run on its own.
\<close>

lemma one_call_alone:
  assumes "user s = Some u" "\<not> ref s" "\<not> fresh (now e) (tokenManager u)"
    and "r = fetch e (length (requests s)) (api_request ''token'' (token_body u) s)"
    and "q = (case api_settle l e r of
                Resolved d \<Rightarrow> faulty e (Set (sKey ''User'' s) (SUser (Some (spread (Some u) (refreshed d)))))
              | _ \<Rightarrow> None)"
  shows "run l e (start s) [Invoke i (now e), Response r, Stored q] =
           \<lparr>auth = snd (refreshIdToken l e s), phase = Idle, waiting = [],
            settled = [(i, void (fst (refreshIdToken l e s)))], cleared = 1\<rparr>"
proof (cases "api_settle l e r")
  case (Resolved d)
  then show ?thesis
    using assms
    by (cases l)
      (auto simp add: run_def start_def refreshIdToken_def try_finally_def api_def await_def
        leave_all_def settle_def clear_def persistSession_def setState_def storage_set_def settle_write_def
        put_def sKey_def emit_def return_def
        split: option.splits prod.splits outcome.splits)
next
  case (Rejected x)
  then show ?thesis
    using assms
    by (cases l)
      (auto simp add: run_def start_def refreshIdToken_def try_finally_def api_def await_def
        leave_all_def settle_def clear_def)
next
  case Pending
  then show ?thesis by (simp add: api_settle_not_Pending)
qed

lemma leave_frame:
  "requests (auth (leave r m w)) = requests (auth m)" "phase (leave r m w) = phase m"
proof -
  obtain i ro where w: "w = (i, ro)" by (cases w)
  show "requests (auth (leave r m w)) = requests (auth m)" "phase (leave r m w) = phase m"
    unfolding w by (cases ro; simp add: settle_def clear_def)+
qed

lemma leaves_frame:
  "requests (auth (foldl (leave r) m ws)) = requests (auth m) \<and> phase (foldl (leave r) m ws) = phase m"
  by (induction ws arbitrary: m) (simp_all add: leave_frame)

lemma leave_all_frame:
  "requests (auth (leave_all r m)) = requests (auth m)" "phase (leave_all r m) = Idle"
  by (simp_all add: leave_all_def leaves_frame)

lemma resumes_frame:
  assumes "ref (auth m)" and "phase m = Idle"
  shows "requests (auth (foldl (resume r) m ws)) = requests (auth m) \<and>
         phase (foldl (resume r) m ws) \<noteq> Requesting \<and>
         (phase (foldl (resume r) m ws) = Idle \<or> ref (auth (foldl (resume r) m ws)))"
proof (cases r)
  case (Resolved d)
  have "ref (auth m) \<Longrightarrow> phase m \<noteq> Requesting \<Longrightarrow>
      requests (auth (foldl (resume (Resolved d)) m ws)) = requests (auth m) \<and>
      phase (foldl (resume (Resolved d)) m ws) \<noteq> Requesting \<and>
      ref (auth (foldl (resume (Resolved d)) m ws))" for m
  proof (induction ws arbitrary: m)
    case Nil
    then show ?case by simp
  next
    case (Cons w ws)
    obtain i ro where w: "w = (i, ro)" by (cases w)
    have "ref (auth (resume (Resolved d) m w))" "phase (resume (Resolved d) m w) \<noteq> Requesting"
      "requests (auth (resume (Resolved d) m w)) = requests (auth m)"
      using Cons.prems unfolding w by (cases ro; simp add: settle_def)+
    with Cons.IH[of "resume (Resolved d) m w"] show ?case by simp
  qed
  with assms Resolved show ?thesis by simp
next
  case (Rejected x)
  have "resume (Rejected x) = leave (Rejected x :: reply outcome)" by (intro ext) simp
  with assms Rejected show ?thesis by (simp add: leaves_frame)
next
  case Pending
  have "resume Pending = leave (Pending :: reply outcome)" by (intro ext) simp
  with assms Pending show ?thesis by (simp add: leaves_frame)
qed


text \<open>
  However the calls and the settlements are interleaved, a \<^verbatim>\<open>token\<close> request is issued only
  when none is outstanding: the requests issued are at most the responses received, and
  one more while a request is outstanding.
\<close>

lemma step_single_flight:
  assumes "phase m \<noteq> Idle \<longrightarrow> ref (auth m)"
    and "length (requests (auth m)) \<le> n + (if phase m = Requesting then 1 else 0)"
  shows "(phase (step l e m ev) \<noteq> Idle \<longrightarrow> ref (auth (step l e m ev))) \<and>
         length (requests (auth (step l e m ev))) \<le>
           n + (case ev of Response r \<Rightarrow> 1 | _ \<Rightarrow> 0) + (if phase (step l e m ev) = Requesting then 1 else 0)"
proof (cases ev)
  case (Invoke i t)
  show ?thesis
  proof (cases "user (auth m)")
    case None
    with Invoke assms show ?thesis by (simp add: settle_def)
  next
    case (Some u)
    show ?thesis
    proof (cases "fresh t (tokenManager u)")
      case True
      with Invoke Some assms show ?thesis by (simp add: settle_def)
    next
      case False
      show ?thesis
      proof (cases "ref (auth m)")
        case True
        have "phase (join l i m) = phase m" "auth (join l i m) = auth m"
          by (cases l; simp add: settle_def split: phase.splits)+
        with Invoke Some False True assms show ?thesis by simp
      next
        case stale: False
        with assms(1) have "phase m = Idle" by auto
        with Invoke Some False stale assms(2) show ?thesis by simp
      qed
    qed
  qed
next
  case (Response r)
  show ?thesis
  proof (cases "phase m = Requesting")
    case True
    with assms(1) have held: "ref (auth m)" by simp
    show ?thesis
    proof (cases l)
      case PersistSession
      let ?m0 = "m\<lparr>waiting := [], phase := Idle\<rparr>"
      have "ref (auth ?m0)" "phase ?m0 = Idle" using held by simp_all
      from resumes_frame[OF this, of "api_settle l e r" "waiting m"]
      show ?thesis using Response True PersistSession assms(2) by auto
    next
      case SetState
      show ?thesis
        using Response True SetState assms(2) held
        by (cases "api_settle l e r") (simp_all add: leave_all_frame)
    qed
  next
    case False
    with Response assms show ?thesis by (cases "phase m") simp_all
  qed
next
  case (Stored q)
  show ?thesis
  proof (cases "phase m")
    case (Persisting d ud)
    obtain r a where pa: "persisted l e ud q (auth m) = (r, a)" by (cases "persisted l e ud q (auth m)")
    have "requests a = requests (auth m)"
      using persisted_frame[of l e ud q "auth m"] pa by simp
    with Stored Persisting pa assms(2) show ?thesis by (simp add: leave_all_frame)
  qed (use Stored assms in simp_all)
qed

lemma run_single_flight:
  assumes "phase m \<noteq> Idle \<longrightarrow> ref (auth m)"
    and "length (requests (auth m)) \<le> n + (if phase m = Requesting then 1 else 0)"
  shows "length (requests (auth (run l e m evs))) \<le>
           n + answers evs + (if phase (run l e m evs) = Requesting then 1 else 0)"
  using assms
proof (induction evs arbitrary: m n)
  case Nil
  then show ?case by (simp add: run_def)
next
  case (Cons ev evs)
  let ?k = "case ev of Response r \<Rightarrow> 1 | _ \<Rightarrow> (0 :: nat)"
  from step_single_flight[OF Cons.prems, of l e ev]
  have "phase (step l e m ev) \<noteq> Idle \<longrightarrow> ref (auth (step l e m ev))"
    and "length (requests (auth (step l e m ev))) \<le> (n + ?k) + (if phase (step l e m ev) = Requesting then 1 else 0)"
    by simp_all
  from Cons.IH[OF this]
  have "length (requests (auth (run l e (step l e m ev) evs))) \<le>
      (n + ?k) + answers evs + (if phase (run l e (step l e m ev) evs) = Requesting then 1 else 0)" .
  moreover have "?k + answers evs = answers (ev # evs)" by (cases ev) simp_all
  moreover have "run l e m (ev # evs) = run l e (step l e m ev) evs" by (simp add: run_def)
  ultimately show ?case by (simp add: add.assoc)
qed

lemma at_most_one_in_flight:
  "length (requests (auth (run l e (start s) evs))) \<le> length (requests s) + answers evs + 1"
proof -
  have "length (requests (auth (run l e (start s) evs))) \<le>
      length (requests s) + answers evs + (if phase (run l e (start s) evs) = Requesting then 1 else 0)"
    by (rule run_single_flight) (simp_all add: start_def)
  then show ?thesis by (simp split: if_splits)
qed

lemmas fixtures = mockUserData_def mockResponse_def expiredResponse_def disabledResponse_def mockEnv_def rejectingEnv_def mockArgs_def
  emptyStorage_def userStorage_def flowStorage_def linkStorage_def mockAuth_def signedIn_def
  updatedUserData_def new_Auth_def

section \<open>The claims\<close>

subsection \<open>C1: several calls find the token expired\<close>

text \<open>
  Claim C1 fails on the first listing, where a joining call returns too early. A user
  is signed in with an expired token, and calls 10 and 11 of \<^verbatim>\<open>refreshIdToken\<close> are made
  before the \<^verbatim>\<open>token\<close> request settles: one request is issued, and call 11 finds the
  handle set. When the request is answered, call 11 returns the response
  (\<^verbatim>\<open>return await this.refreshRequest\<close>) while call 10 has yet to go through
  \<^verbatim>\<open>persistSession\<close>: \<^verbatim>\<open>this.user\<close> still holds the expired token and the handle is still set,
  so that the caller of call 11 reads the old \<^verbatim>\<open>idToken\<close>. When the storage then rejects
  the write, call 10 rejects, and the two calls have not settled alike; when it accepts
  the write, call 10 resolves with no value, call 11 has resolved with the response.
  On the same events the second listing, whose handle is the promise of the request
  followed by \<^verbatim>\<open>setState\<close>, settles no call before the write has settled, and then both
  alike.
\<close>

theorem joiner_returns_early:
  "user (signedIn PersistSession) = Some mockUserData \<and>
   \<not> fresh 7200000 (tokenManager mockUserData) \<and>
   length (requests (auth (run PersistSession (mockEnv 7200000 mockResponse) (start (signedIn PersistSession)) (invocations [(10, 7200000), (11, 7200000)])))) = 1 \<and>
   waiting (run PersistSession (mockEnv 7200000 mockResponse) (start (signedIn PersistSession)) (invocations [(10, 7200000), (11, 7200000)])) = [(10, Owner), (11, Joiner)] \<and>
   settled (run PersistSession (mockEnv 7200000 mockResponse) (start (signedIn PersistSession)) (invocations [(10, 7200000), (11, 7200000)] @ [Response (Inr mockResponse)])) = [(11, Resolved (Data (data mockResponse, Some 10800000)))] \<and>
   waiting (run PersistSession (mockEnv 7200000 mockResponse) (start (signedIn PersistSession)) (invocations [(10, 7200000), (11, 7200000)] @ [Response (Inr mockResponse)])) = [(10, Owner)] \<and>
   user (auth (run PersistSession (mockEnv 7200000 mockResponse) (start (signedIn PersistSession)) (invocations [(10, 7200000), (11, 7200000)] @ [Response (Inr mockResponse)]))) = Some mockUserData \<and>
   ref (auth (run PersistSession (mockEnv 7200000 mockResponse) (start (signedIn PersistSession)) (invocations [(10, 7200000), (11, 7200000)] @ [Response (Inr mockResponse)]))) \<and>
   cleared (run PersistSession (mockEnv 7200000 mockResponse) (start (signedIn PersistSession)) (invocations [(10, 7200000), (11, 7200000)] @ [Response (Inr mockResponse)])) = 0 \<and>
   settled (run PersistSession (mockEnv 7200000 mockResponse) (start (signedIn PersistSession)) (invocations [(10, 7200000), (11, 7200000)] @ [Response (Inr mockResponse), Stored (Some ''QuotaExceededError'')])) =
     [(11, Resolved (Data (data mockResponse, Some 10800000))), (10, Rejected (StorageError ''QuotaExceededError''))] \<and>
   user (auth (run PersistSession (mockEnv 7200000 mockResponse) (start (signedIn PersistSession)) (invocations [(10, 7200000), (11, 7200000)] @ [Response (Inr mockResponse), Stored (Some ''QuotaExceededError'')]))) = Some mockUserData \<and>
   settled (run PersistSession (mockEnv 7200000 mockResponse) (start (signedIn PersistSession)) (invocations [(10, 7200000), (11, 7200000)] @ [Response (Inr mockResponse), Stored None])) =
     [(11, Resolved (Data (data mockResponse, Some 10800000))), (10, Resolved Undefined)] \<and>
   user (auth (run PersistSession (mockEnv 7200000 mockResponse) (start (signedIn PersistSession)) (invocations [(10, 7200000), (11, 7200000)] @ [Response (Inr mockResponse), Stored None]))) = Some updatedUserData \<and>
   settled (run SetState (mockEnv 7200000 mockResponse) (start (signedIn SetState)) (invocations [(10, 7200000), (11, 7200000)] @ [Response (Inr mockResponse)])) = [] \<and>
   waiting (run SetState (mockEnv 7200000 mockResponse) (start (signedIn SetState)) (invocations [(10, 7200000), (11, 7200000)] @ [Response (Inr mockResponse)])) = [(10, Owner), (11, Joiner)] \<and>
   settled (run SetState (mockEnv 7200000 mockResponse) (start (signedIn SetState)) (invocations [(10, 7200000), (11, 7200000)] @ [Response (Inr mockResponse), Stored (Some ''QuotaExceededError'')])) =
     [(10, Rejected (StorageError ''QuotaExceededError'')), (11, Rejected (StorageError ''QuotaExceededError''))] \<and>
   settled (run SetState (mockEnv 7200000 mockResponse) (start (signedIn SetState)) (invocations [(10, 7200000), (11, 7200000)] @ [Response (Inr mockResponse), Stored None])) =
     [(10, Resolved Undefined), (11, Resolved Undefined)] \<and>
   user (auth (run SetState (mockEnv 7200000 mockResponse) (start (signedIn SetState)) (invocations [(10, 7200000), (11, 7200000)] @ [Response (Inr mockResponse), Stored None]))) = Some updatedUserData"
proof -
  note defs = run_def invocations_def start_def fresh_def api_settle_def leave_all_def settle_def clear_def
    await_def return_def settle_write_def put_def emit_def spread_def refreshed_def fixtures
  have stale: "user (signedIn PersistSession) = Some mockUserData" "\<not> fresh 7200000 (tokenManager mockUserData)"
    by (simp_all add: defs)
  have called: "length (requests (auth (run PersistSession (mockEnv 7200000 mockResponse) (start (signedIn PersistSession)) (invocations [(10, 7200000), (11, 7200000)])))) = 1"
    "waiting (run PersistSession (mockEnv 7200000 mockResponse) (start (signedIn PersistSession)) (invocations [(10, 7200000), (11, 7200000)])) = [(10, Owner), (11, Joiner)]"
    by (simp_all add: defs)
  have answered: "settled (run PersistSession (mockEnv 7200000 mockResponse) (start (signedIn PersistSession)) (invocations [(10, 7200000), (11, 7200000)] @ [Response (Inr mockResponse)])) = [(11, Resolved (Data (data mockResponse, Some 10800000)))]"
    "waiting (run PersistSession (mockEnv 7200000 mockResponse) (start (signedIn PersistSession)) (invocations [(10, 7200000), (11, 7200000)] @ [Response (Inr mockResponse)])) = [(10, Owner)]"
    "user (auth (run PersistSession (mockEnv 7200000 mockResponse) (start (signedIn PersistSession)) (invocations [(10, 7200000), (11, 7200000)] @ [Response (Inr mockResponse)]))) = Some mockUserData"
    "ref (auth (run PersistSession (mockEnv 7200000 mockResponse) (start (signedIn PersistSession)) (invocations [(10, 7200000), (11, 7200000)] @ [Response (Inr mockResponse)])))"
    "cleared (run PersistSession (mockEnv 7200000 mockResponse) (start (signedIn PersistSession)) (invocations [(10, 7200000), (11, 7200000)] @ [Response (Inr mockResponse)])) = 0"
    by (simp_all add: defs)
  have refused: "settled (run PersistSession (mockEnv 7200000 mockResponse) (start (signedIn PersistSession)) (invocations [(10, 7200000), (11, 7200000)] @ [Response (Inr mockResponse), Stored (Some ''QuotaExceededError'')])) =
      [(11, Resolved (Data (data mockResponse, Some 10800000))), (10, Rejected (StorageError ''QuotaExceededError''))]"
    "user (auth (run PersistSession (mockEnv 7200000 mockResponse) (start (signedIn PersistSession)) (invocations [(10, 7200000), (11, 7200000)] @ [Response (Inr mockResponse), Stored (Some ''QuotaExceededError'')]))) = Some mockUserData"
    by (simp_all add: defs)
  have written: "settled (run PersistSession (mockEnv 7200000 mockResponse) (start (signedIn PersistSession)) (invocations [(10, 7200000), (11, 7200000)] @ [Response (Inr mockResponse), Stored None])) =
      [(11, Resolved (Data (data mockResponse, Some 10800000))), (10, Resolved Undefined)]"
    "user (auth (run PersistSession (mockEnv 7200000 mockResponse) (start (signedIn PersistSession)) (invocations [(10, 7200000), (11, 7200000)] @ [Response (Inr mockResponse), Stored None]))) = Some updatedUserData"
    by (simp_all add: defs)
  have second: "settled (run SetState (mockEnv 7200000 mockResponse) (start (signedIn SetState)) (invocations [(10, 7200000), (11, 7200000)] @ [Response (Inr mockResponse)])) = []"
    "waiting (run SetState (mockEnv 7200000 mockResponse) (start (signedIn SetState)) (invocations [(10, 7200000), (11, 7200000)] @ [Response (Inr mockResponse)])) = [(10, Owner), (11, Joiner)]"
    "settled (run SetState (mockEnv 7200000 mockResponse) (start (signedIn SetState)) (invocations [(10, 7200000), (11, 7200000)] @ [Response (Inr mockResponse), Stored (Some ''QuotaExceededError'')])) =
      [(10, Rejected (StorageError ''QuotaExceededError'')), (11, Rejected (StorageError ''QuotaExceededError''))]"
    "settled (run SetState (mockEnv 7200000 mockResponse) (start (signedIn SetState)) (invocations [(10, 7200000), (11, 7200000)] @ [Response (Inr mockResponse), Stored None])) =
      [(10, Resolved Undefined), (11, Resolved Undefined)]"
    "user (auth (run SetState (mockEnv 7200000 mockResponse) (start (signedIn SetState)) (invocations [(10, 7200000), (11, 7200000)] @ [Response (Inr mockResponse), Stored None]))) = Some updatedUserData"
    by (simp_all add: defs)
  from stale called answered refused written second show ?thesis by (intro conjI)
qed

text \<open>
  What the two listings have in common. A user is signed in, no refresh is in flight,
  and two or more calls of \<^verbatim>\<open>refreshIdToken\<close> are made, each at a time at which the token
  has expired, before the \<^verbatim>\<open>token\<close> request settles. Then after the calls one \<^verbatim>\<open>token\<close>
  request has been issued, the handle is set and every call is suspended; while a
  successful response is being stored the handle is still set; and when the request and
  the write that follows it have settled, still one request has been issued, the handle
  has been cleared exactly once, and every call has settled. In the second listing all
  calls settle alike: all resolve, or all reject with the same error. In the first
  listing they agree on success or on the error when the request failed, or when the
  write succeeded and no listener threw.
\<close>

lemma single_flight:
  assumes "user s = Some u" and "\<not> ref s"
    and "\<forall>c \<in> set calls. \<not> fresh (snd c) (tokenManager u)" and "2 \<le> length calls"
  shows "(let m = run l e (start s) (invocations calls) in
            requests (auth m) = requests s @ [api_request ''token'' (token_body u) s] \<and>
            ref (auth m) \<and> cleared m = 0 \<and> settled m = [] \<and> length (waiting m) = length calls)
       \<and> (\<forall>d. api_settle l e r = Resolved d \<longrightarrow>
            (let m = run l e (start s) (invocations calls @ [Response r]) in
               requests (auth m) = requests s @ [api_request ''token'' (token_body u) s] \<and>
               ref (auth m) \<and> cleared m = 0))
       \<and> (let m = run SetState e (start s) (invocations calls @ [Response r, Stored q]) in
            requests (auth m) = requests s @ [api_request ''token'' (token_body u) s] \<and>
            \<not> ref (auth m) \<and> cleared m = 1 \<and> waiting m = [] \<and>
            map fst (settled m) = map fst calls \<and> (\<exists>ro. \<forall>x \<in> set (settled m). snd x = ro))
       \<and> (let m = run PersistSession e (start s) (invocations calls @ [Response r, Stored q]) in
            requests (auth m) = requests s @ [api_request ''token'' (token_body u) s] \<and>
            \<not> ref (auth m) \<and> cleared m = 1 \<and> waiting m = [] \<and>
            length (settled m) = length calls \<and> set (map fst (settled m)) = set (map fst calls) \<and>
            ((\<exists>x. api_settle PersistSession e r = Rejected x) \<or>
             (q = None \<and> (\<forall>g \<in> set (listeners s). \<not> throws e g))
             \<longrightarrow> (\<exists>ro. \<forall>x \<in> set (settled m). verdict (snd x) = ro)))"
proof -
  from assms(4) obtain c0 cs where calls: "calls = c0 # cs"
    by (cases calls) auto
  note a = assms(1,2) assms(3)[unfolded calls]
  have 1: "let m = run l e (start s) (invocations calls) in
            requests (auth m) = requests s @ [api_request ''token'' (token_body u) s] \<and>
            ref (auth m) \<and> cleared m = 0 \<and> settled m = [] \<and> length (waiting m) = length calls"
    unfolding calls by (simp add: all_suspended[OF a])
  have 2: "\<forall>d. api_settle l e r = Resolved d \<longrightarrow>
            (let m = run l e (start s) (invocations calls @ [Response r]) in
               requests (auth m) = requests s @ [api_request ''token'' (token_body u) s] \<and>
               ref (auth m) \<and> cleared m = 0)"
    unfolding calls using held_while_persisting[OF a] by (simp add: Let_def)
  have 3: "let m = run SetState e (start s) (invocations calls @ [Response r, Stored q]) in
            requests (auth m) = requests s @ [api_request ''token'' (token_body u) s] \<and>
            \<not> ref (auth m) \<and> cleared m = 1 \<and> waiting m = [] \<and>
            map fst (settled m) = map fst calls \<and> (\<exists>ro. \<forall>x \<in> set (settled m). snd x = ro)"
  proof -
    from settled_second_listing[OF a, of e r q] obtain ro a where
      "requests a = requests s @ [api_request ''token'' (token_body u) s]"
      "run SetState e (start s) (invocations (c0 # cs) @ [Response r, Stored q]) =
        \<lparr>auth = a\<lparr>ref := False\<rparr>, phase = Idle, waiting = [],
         settled = map (\<lambda>c. (fst c, ro)) (c0 # cs), cleared = 1\<rparr>"
      by blast
    then show ?thesis unfolding calls by (auto simp add: Let_def comp_def)
  qed
  have 4: "let m = run PersistSession e (start s) (invocations calls @ [Response r, Stored q]) in
            requests (auth m) = requests s @ [api_request ''token'' (token_body u) s] \<and>
            \<not> ref (auth m) \<and> cleared m = 1 \<and> waiting m = [] \<and>
            length (settled m) = length calls \<and> set (map fst (settled m)) = set (map fst calls) \<and>
            ((\<exists>x. api_settle PersistSession e r = Rejected x) \<or>
             (q = None \<and> (\<forall>g \<in> set (listeners s). \<not> throws e g))
             \<longrightarrow> (\<exists>ro. \<forall>x \<in> set (settled m). verdict (snd x) = ro))"
  proof -
    from settled_first_listing[OF a, of e r q] obtain a where
      ra: "requests a = requests s @ [api_request ''token'' (token_body u) s]" and
      alt: "(\<exists>d r'. api_settle PersistSession e r = Resolved d \<and>
           (q = None \<and> (\<forall>g \<in> set (listeners s). \<not> throws e g) \<longrightarrow> r' = Resolved ()) \<and>
           run PersistSession e (start s) (invocations (c0 # cs) @ [Response r, Stored q]) =
             \<lparr>auth = a\<lparr>ref := False\<rparr>, phase = Idle, waiting = [],
              settled = map (\<lambda>c. (fst c, Resolved (Data d))) cs @ [(fst c0, void (r' :: unit outcome))], cleared = 1\<rparr>)
       \<or> (\<exists>x. api_settle PersistSession e r = Rejected x \<and>
           run PersistSession e (start s) (invocations (c0 # cs) @ [Response r, Stored q]) =
             \<lparr>auth = a\<lparr>ref := False\<rparr>, phase = Idle, waiting = [],
              settled = map (\<lambda>c. (fst c, Rejected x)) (c0 # cs), cleared = 1\<rparr>)"
      by blast
    from alt show ?thesis
    proof (elim disjE exE conjE)
      fix d and r' :: "unit outcome"
      assume d: "api_settle PersistSession e r = Resolved d"
        and q: "q = None \<and> (\<forall>g \<in> set (listeners s). \<not> throws e g) \<longrightarrow> r' = Resolved ()"
        and R: "run PersistSession e (start s) (invocations (c0 # cs) @ [Response r, Stored q]) =
             \<lparr>auth = a\<lparr>ref := False\<rparr>, phase = Idle, waiting = [],
              settled = map (\<lambda>c. (fst c, Resolved (Data d))) cs @ [(fst c0, void r')], cleared = 1\<rparr>"
      have ids: "set (map fst (map (\<lambda>c. (fst c, Resolved (Data d))) cs @ [(fst c0, void r')])) = set (map fst (c0 # cs))"
        by (simp add: comp_def)
      have agree: "\<exists>ro. \<forall>x \<in> set (map (\<lambda>c. (fst c, Resolved (Data d))) cs @ [(fst c0, void r')]). verdict (snd x) = ro"
        if "r' = Resolved ()"
        using that by (intro exI[of _ "Resolved ()"]) (auto simp add: verdict_def)
      show ?thesis
        unfolding calls Let_def R using ra d q ids agree by simp
    next
      fix x
      assume x: "api_settle PersistSession e r = Rejected x"
        and R: "run PersistSession e (start s) (invocations (c0 # cs) @ [Response r, Stored q]) =
             \<lparr>auth = a\<lparr>ref := False\<rparr>, phase = Idle, waiting = [],
              settled = map (\<lambda>c. (fst c, Rejected x)) (c0 # cs), cleared = 1\<rparr>"
      have ids: "set (map fst (map (\<lambda>c. (fst c, Rejected x :: ret outcome)) (c0 # cs))) = set (map fst (c0 # cs))"
        by (simp add: comp_def)
      have agree: "\<exists>ro. \<forall>y \<in> set (map (\<lambda>c. (fst c, Rejected x :: ret outcome)) (c0 # cs)). verdict (snd y) = ro"
        by (intro exI[of _ "Rejected x"]) (auto simp add: verdict_def)
      show ?thesis
        unfolding calls Let_def R using ra ids agree by simp
    qed
  qed
  from 1 2 3 4 show ?thesis by blast
qed

text \<open>
  For instance three calls, a successful response and a successful write: on the second
  listing, and on the first listing with no listener registered.
\<close>

lemma single_flight_example:
  "user (signedIn SetState) = Some mockUserData \<and> \<not> ref (signedIn SetState) \<and>
   \<not> fresh 7200000 (tokenManager mockUserData) \<and> \<not> fresh 7200001 (tokenManager mockUserData) \<and>
   \<not> fresh 7200002 (tokenManager mockUserData) \<and>
   2 \<le> length [(10, 7200000), (11, 7200001), (12, 7200002 :: int)] \<and>
   api_settle SetState (mockEnv 7200000 mockResponse) (Inr mockResponse) =
     Resolved (data mockResponse, Some 10800000) \<and>
   ref (auth (run SetState (mockEnv 7200000 mockResponse) (start (signedIn SetState))
     (invocations [(10, 7200000), (11, 7200001), (12, 7200002)] @ [Response (Inr mockResponse)]))) \<and>
   cleared (run SetState (mockEnv 7200000 mockResponse) (start (signedIn SetState))
     (invocations [(10, 7200000), (11, 7200001), (12, 7200002)] @ [Response (Inr mockResponse)])) = 0 \<and>
   requests (auth (run SetState (mockEnv 7200000 mockResponse) (start (signedIn SetState))
     (invocations [(10, 7200000), (11, 7200001), (12, 7200002)] @ [Response (Inr mockResponse), Stored None]))) =
     [api_request ''token'' (token_body mockUserData) (signedIn SetState)] \<and>
   cleared (run SetState (mockEnv 7200000 mockResponse) (start (signedIn SetState))
     (invocations [(10, 7200000), (11, 7200001), (12, 7200002)] @ [Response (Inr mockResponse), Stored None])) = 1 \<and>
   map fst (settled (run SetState (mockEnv 7200000 mockResponse) (start (signedIn SetState))
     (invocations [(10, 7200000), (11, 7200001), (12, 7200002)] @ [Response (Inr mockResponse), Stored None]))) =
     [10, 11, 12] \<and>
   waiting (run SetState (mockEnv 7200000 mockResponse) (start (signedIn SetState))
     (invocations [(10, 7200000), (11, 7200001), (12, 7200002)] @ [Response (Inr mockResponse), Stored None])) = [] \<and>
   user (signedIn PersistSession) = Some mockUserData \<and> \<not> ref (signedIn PersistSession) \<and>
   listeners (signedIn PersistSession) = [] \<and>
   cleared (run PersistSession (mockEnv 7200000 mockResponse) (start (signedIn PersistSession))
     (invocations [(10, 7200000), (11, 7200001), (12, 7200002)] @ [Response (Inr mockResponse), Stored None])) = 1 \<and>
   length (settled (run PersistSession (mockEnv 7200000 mockResponse) (start (signedIn PersistSession))
     (invocations [(10, 7200000), (11, 7200001), (12, 7200002)] @ [Response (Inr mockResponse), Stored None]))) = 3 \<and>
   verdict (snd (settled (run PersistSession (mockEnv 7200000 mockResponse) (start (signedIn PersistSession))
     (invocations [(10, 7200000), (11, 7200001), (12, 7200002)] @ [Response (Inr mockResponse), Stored None])) ! 0)) =
   verdict (snd (settled (run PersistSession (mockEnv 7200000 mockResponse) (start (signedIn PersistSession))
     (invocations [(10, 7200000), (11, 7200001), (12, 7200002)] @ [Response (Inr mockResponse), Stored None])) ! 2))"
proof -
  let ?e = "mockEnv 7200000 mockResponse"
  let ?s = "signedIn SetState"
  let ?p = "signedIn PersistSession"
  let ?calls = "[(10, 7200000), (11, 7200001), (12, 7200002)] :: (nat \<times> int) list"
  let ?mid = "run SetState ?e (start ?s) (invocations ?calls @ [Response (Inr mockResponse)])"
  let ?end = "run SetState ?e (start ?s) (invocations ?calls @ [Response (Inr mockResponse), Stored None])"
  let ?first = "run PersistSession ?e (start ?p) (invocations ?calls @ [Response (Inr mockResponse), Stored None])"
  have 1: "user (signedIn l) = Some mockUserData" for l by (simp add: fixtures)
  have 2: "\<not> ref (signedIn l)" for l by (simp add: fixtures)
  have stale: "\<not> fresh 7200000 (tokenManager mockUserData)" "\<not> fresh 7200001 (tokenManager mockUserData)"
    "\<not> fresh 7200002 (tokenManager mockUserData)"
    by (simp_all add: fresh_def fixtures)
  have 3: "\<forall>c \<in> set ?calls. \<not> fresh (snd c) (tokenManager mockUserData)"
    using stale by simp
  have 4: "2 \<le> length ?calls" by simp
  have r: "requests ?s = []" and quiet: "listeners ?p = []" by (simp_all add: fixtures)
  have good: "api_settle SetState ?e (Inr mockResponse) = Resolved (data mockResponse, Some 10800000)"
    by (simp add: api_settle_def mockResponse_def)
  note S = single_flight[OF 1[of SetState] 2[of SetState] 3 4, of SetState ?e "Inr mockResponse" None]
  note P = single_flight[OF 1[of PersistSession] 2[of PersistSession] 3 4, of PersistSession ?e "Inr mockResponse" None]
  from S good have mid: "ref (auth ?mid)" "cleared ?mid = 0"
    by (simp_all add: Let_def)
  from S have fin: "requests (auth ?end) = requests ?s @ [api_request ''token'' (token_body mockUserData) ?s]"
    "cleared ?end = 1" "waiting ?end = []" "map fst (settled ?end) = map fst ?calls"
    by (simp_all add: Let_def)
  from P have first: "cleared ?first = 1" "length (settled ?first) = length ?calls"
    by (simp_all add: Let_def)
  from P quiet obtain ro where "\<forall>x \<in> set (settled ?first). verdict (snd x) = ro"
    by (auto simp add: Let_def)
  moreover have "settled ?first ! 0 \<in> set (settled ?first)" "settled ?first ! 2 \<in> set (settled ?first)"
    using first(2) by (simp_all del: append.simps)
  ultimately have same: "verdict (snd (settled ?first ! 0)) = verdict (snd (settled ?first ! 2))"
    by simp
  show ?thesis
    using 1 2 stale good mid fin first same quiet by (simp add: r)
qed

subsection \<open>C2: what a successful refresh writes\<close>

text \<open>
  Claim C2, as amended. A user is signed in with an expired token, no refresh is in
  flight, the \<^verbatim>\<open>token\<close> call succeeds and so does the write to the storage. Then in both
  listings the user object keeps its profile and gets the \<^verbatim>\<open>tokenManager\<close> of the
  response (\<^verbatim>\<open>id_token\<close>, \<^verbatim>\<open>refresh_token\<close>, date plus one hour), and is stored under the
  user key. The second listing calls no listener. The first listing calls the listeners
  in order with the new user object, up to the first one that throws.
\<close>

theorem refresh_success:
  assumes "user s = Some u" and "\<not> fresh (now e) (tokenManager u)" and "\<not> ref s"
    and "fetch e (length (requests s)) (api_request ''token'' (token_body u) s) = Inr resp"
    and "ok resp"
    and "u' = u\<lparr>tokenManager := \<lparr>idToken = id_token (data resp), refreshToken = refresh_token (data resp),
                 expiresAt = map_option (\<lambda>d. d + 3600 * 1000) (date resp)\<rparr>\<rparr>"
    and "faulty e (Set (sKey ''User'' s) (SUser (Some u'))) = None"
  shows "refreshIdToken SetState e s =
           (Resolved (), s\<lparr>user := Some u', storage := (storage s)(sKey ''User'' s \<mapsto> SUser (Some u')),
                           requests := requests s @ [api_request ''token'' (token_body u) s]\<rparr>)
       \<and> snd (refreshIdToken PersistSession e s) =
           s\<lparr>user := Some u', storage := (storage s)(sKey ''User'' s \<mapsto> SUser (Some u')),
             requests := requests s @ [api_request ''token'' (token_body u) s],
             notified := notified s @ fst (forEach (throws e) (Some u') (listeners s))\<rparr>
       \<and> profile u' = profile u"
  using assms
  by (simp add: refreshIdToken_def try_finally_def api_def api_settle_def await_def setState_def persistSession_def
      storage_set_def settle_write_def put_def sKey_def spread_def refreshed_def return_def emit_def
      split: prod.splits option.splits)

theorem refresh_success_witness:
  "user (listen 7 (signedIn SetState)) = Some mockUserData \<and>
   \<not> fresh (now (mockEnv 7200000 mockResponse)) (tokenManager mockUserData) \<and>
   \<not> ref (listen 7 (signedIn SetState)) \<and>
   ok mockResponse \<and>
   refreshIdToken SetState (mockEnv 7200000 mockResponse) (listen 7 (signedIn SetState)) =
     (Resolved (),
      (listen 7 (signedIn SetState))
        \<lparr>user := Some updatedUserData,
         storage := (storage (listen 7 (signedIn SetState)))(''Auth:User:key:default'' \<mapsto> SUser (Some updatedUserData)),
         requests := [api_request ''token'' (token_body mockUserData) (listen 7 (signedIn SetState))]\<rparr>) \<and>
   notified (snd (refreshIdToken SetState (mockEnv 7200000 mockResponse) (listen 7 (signedIn SetState)))) = []"
proof -
  let ?e = "mockEnv 7200000 mockResponse"
  let ?s = "listen 7 (signedIn SetState)"
  have 1: "user ?s = Some mockUserData" by (simp add: fixtures listen_def)
  have 2: "\<not> fresh (now ?e) (tokenManager mockUserData)" by (simp add: fixtures fresh_def)
  have 3: "\<not> ref ?s" by (simp add: fixtures listen_def)
  have 4: "fetch ?e (length (requests ?s)) (api_request ''token'' (token_body mockUserData) ?s) = Inr mockResponse"
    by (simp add: mockEnv_def)
  have 5: "ok mockResponse" by (simp add: mockResponse_def)
  have 6: "updatedUserData =
      mockUserData\<lparr>tokenManager := \<lparr>idToken = id_token (data mockResponse),
        refreshToken = refresh_token (data mockResponse),
        expiresAt = map_option (\<lambda>d. d + 3600 * 1000) (date mockResponse)\<rparr>\<rparr>"
    by (simp add: fixtures)
  have 7: "faulty ?e (Set (sKey ''User'' ?s) (SUser (Some updatedUserData))) = None"
    by (simp add: mockEnv_def)
  have k: "sKey ''User'' ?s = ''Auth:User:key:default''" "requests ?s = []" "notified ?s = []"
    by (simp_all add: sKey_def fixtures listen_def)
  from refresh_success[OF 1 2 3 4 5 6 7]
  have "refreshIdToken SetState ?e ?s =
      (Resolved (), ?s\<lparr>user := Some updatedUserData,
         storage := (storage ?s)(sKey ''User'' ?s \<mapsto> SUser (Some updatedUserData)),
         requests := requests ?s @ [api_request ''token'' (token_body mockUserData) ?s]\<rparr>)"
    by blast
  then show ?thesis
    using 1 2 3 5 by (simp add: k)
qed

text \<open>
  The claim as it was stated fails on the first listing: \<^verbatim>\<open>persistSession\<close> ends with
  \<^verbatim>\<open>this.emit()\<close>, so a listener registered before the refresh is called with the new
  user object.
\<close>

theorem refresh_notifies_counterexample:
  "fst (refreshIdToken PersistSession (mockEnv 7200000 mockResponse) (listen 7 (signedIn PersistSession))) = Resolved () \<and>
   notified (snd (refreshIdToken PersistSession (mockEnv 7200000 mockResponse) (listen 7 (signedIn PersistSession)))) =
     [(7, Some updatedUserData)]"
  by (simp add: refreshIdToken_def try_finally_def api_def api_settle_def await_def persistSession_def
      storage_set_def settle_write_def put_def spread_def refreshed_def return_def emit_def fresh_def
      listen_def fixtures)

subsection \<open>C3: construction\<close>

text \<open>
  Claim C3, as amended. \<open>s\<close> and \<open>p\<close> are the new instance of the second and of the
  first listing; the read of the user key is assumed to succeed.
  With nothing stored under the user key, the promise chain of the constructor leaves
  the instance as it is: no request, no user, no rejection (both listings).
  With a user object stored, the second listing adopts it and calls \<^verbatim>\<open>refreshIdToken\<close>:
  a token that has not expired leads to the \<^verbatim>\<open>lookup\<close> call alone; an expired one to the
  \<^verbatim>\<open>token\<close> call, followed by the \<^verbatim>\<open>lookup\<close> call with the new \<^verbatim>\<open>id_token\<close> when the refresh
  succeeded and was stored. When the \<^verbatim>\<open>token\<close> call fails with the message
  \<^verbatim>\<open>TOKEN_EXPIRED\<close> (and the removal from the storage succeeds), the instance ends with no
  user and nothing under the user key, and no rejection is left unhandled; with another
  message the user stays adopted and the error is an unhandled rejection.
  The first listing adopts the stored user object and makes the \<^verbatim>\<open>lookup\<close> call with the
  stored \<^verbatim>\<open>idToken\<close>, whether the token has expired or not; it makes no \<^verbatim>\<open>token\<close> call, and
  when the \<^verbatim>\<open>lookup\<close> call fails the user stays and the error is an unhandled rejection.
\<close>

theorem constructor_outcomes:
  assumes "s = new_Auth SetState a st h" and "p = new_Auth PersistSession a st h"
    and "faulty e (Get (sKey ''User'' s)) = None"
  shows "(st (sKey ''User'' s) = None
            \<longrightarrow> construct SetState e a st h = ([], s) \<and> construct PersistSession e a st h = ([], p))
    \<and> (st (sKey ''User'' s) = Some (SUser (Some u)) \<and> fresh (now e) (tokenManager u)
            \<longrightarrow> requests (snd (construct SetState e a st h)) =
                  [api_request ''lookup'' [(''idToken'', JStr (idToken (tokenManager u)))] s])
    \<and> (st (sKey ''User'' s) = Some (SUser (Some u)) \<and> \<not> fresh (now e) (tokenManager u) \<and>
        api_settle SetState e (fetch e 0 (api_request ''token'' (token_body u) s)) = Resolved d \<and>
        faulty e (Set (sKey ''User'' s) (SUser (Some (u\<lparr>tokenManager := refreshed d\<rparr>)))) = None
            \<longrightarrow> requests (snd (construct SetState e a st h)) =
                  [api_request ''token'' (token_body u) s,
                   api_request ''lookup'' [(''idToken'', JStr (id_token (fst d)))] s])
    \<and> (st (sKey ''User'' s) = Some (SUser (Some u)) \<and> \<not> fresh (now e) (tokenManager u) \<and>
        api_settle SetState e (fetch e 0 (api_request ''token'' (token_body u) s)) = Rejected x \<and>
        message x = ''TOKEN_EXPIRED'' \<and> faulty e (Remove (sKey ''User'' s)) = None
            \<longrightarrow> construct SetState e a st h =
                  ([], s\<lparr>storage := st(sKey ''User'' s := None),
                          requests := [api_request ''token'' (token_body u) s]\<rparr>))
    \<and> (st (sKey ''User'' s) = Some (SUser (Some u)) \<and> \<not> fresh (now e) (tokenManager u) \<and>
        api_settle SetState e (fetch e 0 (api_request ''token'' (token_body u) s)) = Rejected x \<and>
        message x \<noteq> ''TOKEN_EXPIRED''
            \<longrightarrow> construct SetState e a st h =
                  ([x], s\<lparr>user := Some u, requests := [api_request ''token'' (token_body u) s]\<rparr>))
    \<and> (st (sKey ''User'' s) = Some (SUser (Some u))
            \<longrightarrow> requests (snd (construct PersistSession e a st h)) =
                  [api_request ''lookup'' [(''idToken'', JStr (idToken (tokenManager u)))] p])
    \<and> (st (sKey ''User'' s) = Some (SUser (Some u)) \<and>
        api_settle PersistSession e
          (fetch e 0 (api_request ''lookup'' [(''idToken'', JStr (idToken (tokenManager u)))] p)) = Rejected x
            \<longrightarrow> construct PersistSession e a st h =
                  ([x], p\<lparr>user := Some u,
                          requests := [api_request ''lookup'' [(''idToken'', JStr (idToken (tokenManager u)))] p]\<rparr>))"
proof -
  have s: "user s = None" "listeners s = []" "\<not> ref s" "requests s = []" "storage s = st"
    and p: "user p = None" "listeners p = []" "\<not> ref p" "requests p = []" "storage p = st"
    and k: "sKey ''User'' p = sKey ''User'' s"
    by (simp_all add: assms(1,2) new_Auth_def sKey_def)
  have gs: "faulty e (Get (sKey ''User'' s)) = None" and gp: "faulty e (Get (sKey ''User'' p)) = None"
    using assms(3) k by simp_all
  have cs: "construct SetState e a st h = initialize SetState e s"
    and cp: "construct PersistSession e a st h = initialize PersistSession e p"
    by (simp_all add: construct_def assms(1,2))
  have 1: "construct SetState e a st h = ([], s) \<and> construct PersistSession e a st h = ([], p)"
    if "st (sKey ''User'' s) = None"
    using that init_absent[OF gs _ s(2) s(1), of SetState] init_absent[OF gp _ p(2) p(1), of PersistSession]
    by (simp add: cs cp s p k)
  have 2: "requests (snd (construct SetState e a st h)) =
      [api_request ''lookup'' [(''idToken'', JStr (idToken (tokenManager u)))] s]"
    if "st (sKey ''User'' s) = Some (SUser (Some u))" "fresh (now e) (tokenManager u)"
    using that init_fresh[OF gs _ s(2), of u] by (simp add: cs s)
  have 3: "requests (snd (construct SetState e a st h)) =
      [api_request ''token'' (token_body u) s, api_request ''lookup'' [(''idToken'', JStr (id_token (fst d)))] s]"
    if "st (sKey ''User'' s) = Some (SUser (Some u))" "\<not> fresh (now e) (tokenManager u)"
      "api_settle SetState e (fetch e 0 (api_request ''token'' (token_body u) s)) = Resolved d"
      "faulty e (Set (sKey ''User'' s) (SUser (Some (u\<lparr>tokenManager := refreshed d\<rparr>)))) = None"
    using that init_refreshed[OF gs _ s(2) s(3), of u d] by (simp add: cs s)
  have 4: "construct SetState e a st h =
      ([], s\<lparr>storage := st(sKey ''User'' s := None), requests := [api_request ''token'' (token_body u) s]\<rparr>)"
    if "st (sKey ''User'' s) = Some (SUser (Some u))" "\<not> fresh (now e) (tokenManager u)"
      "api_settle SetState e (fetch e 0 (api_request ''token'' (token_body u) s)) = Rejected x"
      "message x = ''TOKEN_EXPIRED''" "faulty e (Remove (sKey ''User'' s)) = None"
    using that init_expired_rejected(1)[OF gs _ s(2) s(3), of u x] s(1) by (simp add: cs s)
  have 5: "construct SetState e a st h =
      ([x], s\<lparr>user := Some u, requests := [api_request ''token'' (token_body u) s]\<rparr>)"
    if "st (sKey ''User'' s) = Some (SUser (Some u))" "\<not> fresh (now e) (tokenManager u)"
      "api_settle SetState e (fetch e 0 (api_request ''token'' (token_body u) s)) = Rejected x"
      "message x \<noteq> ''TOKEN_EXPIRED''"
    using that init_expired_rejected(2)[OF gs _ s(2) s(3), of u x] by (simp add: cs s)
  have 6: "requests (snd (construct PersistSession e a st h)) =
      [api_request ''lookup'' [(''idToken'', JStr (idToken (tokenManager u)))] p]"
    if "st (sKey ''User'' s) = Some (SUser (Some u))"
    using that init_first_listing[OF gp, of u] by (simp add: cp p k)
  have 7: "construct PersistSession e a st h =
      ([x], p\<lparr>user := Some u, requests := [api_request ''lookup'' [(''idToken'', JStr (idToken (tokenManager u)))] p]\<rparr>)"
    if "st (sKey ''User'' s) = Some (SUser (Some u))"
      "api_settle PersistSession e
          (fetch e 0 (api_request ''lookup'' [(''idToken'', JStr (idToken (tokenManager u)))] p)) = Rejected x"
    using that init_first_listing_rejected[OF gp, of u x] by (simp add: cp p k)
  from 1 2 3 4 5 6 7 show ?thesis by blast
qed

text \<open>
  Constructions over an empty storage, and over a stored user: with a token that has
  not expired, with an expired token that is refreshed, with a \<^verbatim>\<open>token\<close> call that answers
  \<^verbatim>\<open>TOKEN_EXPIRED\<close> or \<^verbatim>\<open>USER_DISABLED\<close>, and on the first listing.
\<close>

theorem constructor_outcomes_witness:
  "faulty (mockEnv 0 mockResponse) (Get ''Auth:User:key:default'') = None \<and>
   emptyStorage ''Auth:User:key:default'' = None \<and>
   construct SetState (mockEnv 0 mockResponse) mockArgs emptyStorage ''currentUri'' = ([], mockAuth SetState emptyStorage) \<and>
   construct PersistSession (mockEnv 0 mockResponse) mockArgs emptyStorage ''currentUri'' =
     ([], mockAuth PersistSession emptyStorage) \<and>
   requests (mockAuth SetState emptyStorage) = [] \<and>
   userStorage ''Auth:User:key:default'' = Some (SUser (Some mockUserData)) \<and>
   fresh (now (mockEnv 0 mockResponse)) (tokenManager mockUserData) \<and>
   requests (snd (construct SetState (mockEnv 0 mockResponse) mockArgs userStorage ''currentUri'')) =
     [api_request ''lookup'' [(''idToken'', JStr ''idTokenString'')] (mockAuth SetState userStorage)] \<and>
   \<not> fresh (now (mockEnv 7200000 mockResponse)) (tokenManager mockUserData) \<and>
   requests (snd (construct SetState (mockEnv 7200000 mockResponse) mockArgs userStorage ''currentUri'')) =
     [api_request ''token'' (token_body mockUserData) (mockAuth SetState userStorage),
      api_request ''lookup'' [(''idToken'', JStr ''updated'')] (mockAuth SetState userStorage)] \<and>
   api_settle SetState (mockEnv 7200000 expiredResponse)
     (fetch (mockEnv 7200000 expiredResponse) 0
        (api_request ''token'' (token_body mockUserData) (mockAuth SetState userStorage))) =
     Rejected (Error ''TOKEN_EXPIRED'') \<and>
   fst (construct SetState (mockEnv 7200000 expiredResponse) mockArgs userStorage ''currentUri'') = [] \<and>
   user (snd (construct SetState (mockEnv 7200000 expiredResponse) mockArgs userStorage ''currentUri'')) = None \<and>
   storage (snd (construct SetState (mockEnv 7200000 expiredResponse) mockArgs userStorage ''currentUri''))
     ''Auth:User:key:default'' = None \<and>
   requests (snd (construct SetState (mockEnv 7200000 expiredResponse) mockArgs userStorage ''currentUri'')) =
     [api_request ''token'' (token_body mockUserData) (mockAuth SetState userStorage)] \<and>
   fst (construct SetState (mockEnv 7200000 disabledResponse) mockArgs userStorage ''currentUri'') =
     [Error ''USER_DISABLED''] \<and>
   user (snd (construct SetState (mockEnv 7200000 disabledResponse) mockArgs userStorage ''currentUri'')) =
     Some mockUserData \<and>
   requests (snd (construct PersistSession (mockEnv 7200000 mockResponse) mockArgs userStorage ''currentUri'')) =
     [api_request ''lookup'' [(''idToken'', JStr ''idTokenString'')] (mockAuth PersistSession userStorage)] \<and>
   fst (construct PersistSession (mockEnv 7200000 expiredResponse) mockArgs userStorage ''currentUri'') =
     [Error ''TOKEN_EXPIRED''] \<and>
   user (snd (construct PersistSession (mockEnv 7200000 expiredResponse) mockArgs userStorage ''currentUri'')) =
     Some mockUserData"
proof -
  let ?e = "mockEnv 0 mockResponse"
  let ?g = "mockEnv 7200000 mockResponse"
  let ?x = "mockEnv 7200000 expiredResponse"
  let ?d = "mockEnv 7200000 disabledResponse"
  let ?s = "mockAuth SetState userStorage"
  let ?p = "mockAuth PersistSession userStorage"
  have s: "mockAuth l st = new_Auth l mockArgs st ''currentUri''" for l st by (simp add: mockAuth_def)
  have k: "sKey ''User'' (mockAuth l st) = ''Auth:User:key:default''" for l st
    by (simp add: sKey_def fixtures)
  have g: "faulty (mockEnv t resp) op = None" for t resp op by (simp add: mockEnv_def)
  have gk: "faulty (mockEnv t resp) (Get (sKey ''User'' (mockAuth SetState st))) = None" for t resp st
    by (simp add: g)
  have absent: "emptyStorage ''Auth:User:key:default'' = None" by (simp add: emptyStorage_def)
  have present: "userStorage ''Auth:User:key:default'' = Some (SUser (Some mockUserData))"
    by (simp add: userStorage_def)
  have early: "fresh (now ?e) (tokenManager mockUserData)" by (simp add: fresh_def fixtures)
  have stale: "\<not> fresh (now (mockEnv 7200000 resp)) (tokenManager mockUserData)" for resp
    by (simp add: fresh_def fixtures)
  have tok: "idToken (tokenManager mockUserData) = ''idTokenString''" by (simp add: mockUserData_def)
  have good: "api_settle SetState ?g (fetch ?g 0 (api_request ''token'' (token_body mockUserData) ?s)) =
      Resolved (data mockResponse, Some 10800000)"
    by (simp add: api_settle_def fixtures)
  have new: "id_token (fst (data mockResponse, Some (10800000 :: int))) = ''updated''" by (simp add: mockResponse_def)
  have expired: "api_settle SetState ?x (fetch ?x 0 (api_request ''token'' (token_body mockUserData) ?s)) =
      Rejected (Error ''TOKEN_EXPIRED'')"
    by (simp add: api_settle_def explanation_def fixtures)
  have disabled: "api_settle SetState ?d (fetch ?d 0 (api_request ''token'' (token_body mockUserData) ?s)) =
      Rejected (Error ''USER_DISABLED'')"
    by (simp add: api_settle_def explanation_def fixtures)
  have lookup: "api_settle PersistSession ?x
      (fetch ?x 0 (api_request ''lookup'' [(''idToken'', JStr (idToken (tokenManager mockUserData)))] ?p)) =
      Rejected (Error ''TOKEN_EXPIRED'')"
    by (simp add: api_settle_def fixtures)
  have fields: "requests (mockAuth SetState emptyStorage) = []" "user ?s = None"
    by (simp_all add: fixtures)
  from constructor_outcomes[OF s[of SetState emptyStorage] s[of PersistSession emptyStorage] gk[of 0 mockResponse emptyStorage]] absent
  have 1: "construct SetState ?e mockArgs emptyStorage ''currentUri'' = ([], mockAuth SetState emptyStorage)"
    "construct PersistSession ?e mockArgs emptyStorage ''currentUri'' = ([], mockAuth PersistSession emptyStorage)"
    unfolding k by blast+
  from constructor_outcomes[OF s[of SetState userStorage] s[of PersistSession userStorage] gk[of 0 mockResponse userStorage], where u = mockUserData] present early
  have 2: "requests (snd (construct SetState ?e mockArgs userStorage ''currentUri'')) =
      [api_request ''lookup'' [(''idToken'', JStr ''idTokenString'')] ?s]"
    unfolding k tok by blast
  from constructor_outcomes[OF s[of SetState userStorage] s[of PersistSession userStorage] gk[of 7200000 mockResponse userStorage], where u = mockUserData and d = "(data mockResponse, Some 10800000)"]
    present stale good g
  have 3: "requests (snd (construct SetState ?g mockArgs userStorage ''currentUri'')) =
      [api_request ''token'' (token_body mockUserData) ?s, api_request ''lookup'' [(''idToken'', JStr ''updated'')] ?s]"
    unfolding k new by blast
  from constructor_outcomes[OF s[of SetState userStorage] s[of PersistSession userStorage] gk[of 7200000 expiredResponse userStorage], where u = mockUserData and x = "Error ''TOKEN_EXPIRED''"]
    present stale expired g
  have 4: "construct SetState ?x mockArgs userStorage ''currentUri'' =
      ([], ?s\<lparr>storage := userStorage(''Auth:User:key:default'' := None),
               requests := [api_request ''token'' (token_body mockUserData) ?s]\<rparr>)"
    unfolding k by simp
  from constructor_outcomes[OF s[of SetState userStorage] s[of PersistSession userStorage] gk[of 7200000 disabledResponse userStorage], where u = mockUserData and x = "Error ''USER_DISABLED''"]
    present stale disabled
  have 5: "construct SetState ?d mockArgs userStorage ''currentUri'' =
      ([Error ''USER_DISABLED''], ?s\<lparr>user := Some mockUserData,
               requests := [api_request ''token'' (token_body mockUserData) ?s]\<rparr>)"
    unfolding k by simp
  from constructor_outcomes[OF s[of SetState userStorage] s[of PersistSession userStorage] gk[of 7200000 mockResponse userStorage], where u = mockUserData] present
  have 6: "requests (snd (construct PersistSession ?g mockArgs userStorage ''currentUri'')) =
      [api_request ''lookup'' [(''idToken'', JStr ''idTokenString'')] ?p]"
    unfolding k tok by blast
  from constructor_outcomes[OF s[of SetState userStorage] s[of PersistSession userStorage] gk[of 7200000 expiredResponse userStorage], where u = mockUserData and x = "Error ''TOKEN_EXPIRED''"]
    present lookup
  have 7: "construct PersistSession ?x mockArgs userStorage ''currentUri'' =
      ([Error ''TOKEN_EXPIRED''], ?p\<lparr>user := Some mockUserData,
               requests := [api_request ''lookup'' [(''idToken'', JStr (idToken (tokenManager mockUserData)))] ?p]\<rparr>)"
    unfolding k by blast
  show ?thesis
    using g absent present early stale expired 1 2 3 6 fields unfolding 4 5 7 by simp
qed

text \<open>
  The claim as it was stated fails on the first listing: its constructor calls
  \<^verbatim>\<open>fetchProfile\<close> and never \<^verbatim>\<open>refreshIdToken\<close>. Over a stored user whose token has expired
  the one request made is the \<^verbatim>\<open>lookup\<close> call.
\<close>

theorem constructor_counterexample:
  "\<not> fresh (now (mockEnv 7200000 mockResponse)) (tokenManager mockUserData) \<and>
   map url (requests (snd (construct PersistSession (mockEnv 7200000 mockResponse) mockArgs userStorage ''currentUri''))) =
     [''https://identitytoolkit.googleapis.com/v1/accounts:lookup?key=key'']"
  by (simp add: construct_def storage_get_def fetchProfile_def await_def return_def api_def api_settle_def
      persistSession_def storage_set_def settle_write_def put_def emit_def userData_of_def api_request_def
      endpoint_url_def fresh_def sKey_def fixtures)

subsection \<open>C4: the flow state after the redirect\<close>

text \<open>
  Claim C4, as amended. \<^verbatim>\<open>finishProviderSignIn\<close> reads the SessionId key and the
  LinkAccount key. When it gets past the check for a link flow without a user (the flag
  is not truthy, or a user is signed in), it removes the LinkAccount key before the
  \<^verbatim>\<open>signInWithIdp\<close> call, so the key is gone whether the rest of the call resolves or
  rejects. The SessionId key is not removed: it holds after the call what it held
  before. Both listings; the two reads and the removal are assumed to succeed.
\<close>

theorem link_flag_consumed:
  assumes "faulty e (Get (sKey ''SessionId'' s)) = None"
    and "faulty e (Get (sKey ''LinkAccount'' s)) = None"
    and "faulty e (Remove (sKey ''LinkAccount'' s)) = None"
    and "\<not> (truthy (storage s (sKey ''LinkAccount'' s)) \<and> user s = None)"
  shows "storage (snd (finishProviderSignIn l e requestUri s)) (sKey ''LinkAccount'' s) = None \<and>
         storage (snd (finishProviderSignIn l e requestUri s)) (sKey ''SessionId'' s) = storage s (sKey ''SessionId'' s)"
proof -
  let ?s3 = "del (sKey ''LinkAccount'' s) s"
  let ?link = "storage s (sKey ''LinkAccount'' s)"
  let ?b = "signInWithIdp_body
              (if truthy ?link then jopt (map_option (\<lambda>u. idToken (tokenManager u)) (user ?s3)) else JUndefined)
              requestUri (storage s (sKey ''SessionId'' s))"
  let ?rest = "await (api l e ''signInWithIdp'' ?b)
        (\<lambda>d. await (fetchProfile l e (Some \<lparr>idToken = r_idToken (fst d), refreshToken = r_refreshToken (fst d),
                                    expiresAt = snd d\<rparr>))
               (\<lambda>_ s4. return (r_context (fst d)) (replaceState s4))) ?s3"
  have user3: "user ?s3 = user s" by (simp add: del_def)
  have key3: "sKey k ?s3 = sKey k s" for k by (simp add: sKey_def del_def)
  have run: "finishProviderSignIn l e requestUri s = ?rest"
  proof (cases "truthy ?link")
    case True
    with assms(4) obtain u where "user s = Some u" by auto
    with True assms(1-3) show ?thesis
      by (simp add: finishProviderSignIn_def await_def storage_get_def storage_remove_def settle_write_def
          user3 key3)
  next
    case False
    with assms(1-3) show ?thesis
      by (simp add: finishProviderSignIn_def await_def storage_get_def storage_remove_def settle_write_def
          user3 key3)
  qed
  have "same_instance ?s3 (snd ?rest)"
    by (rule exchange_same)
  moreover have "sKey ''LinkAccount'' ?s3 = sKey ''LinkAccount'' s" "sKey ''SessionId'' ?s3 = sKey ''SessionId'' s"
    by (simp_all add: sKey_def del_def)
  moreover have "storage ?s3 (sKey ''LinkAccount'' s) = None"
    "storage ?s3 (sKey ''SessionId'' s) = storage s (sKey ''SessionId'' s)"
    using user_key_differs[of s] by (simp_all add: del_def)
  ultimately show ?thesis
    using run by (simp add: same_instance_def)
qed

text \<open>A link flow that returns while the user is still signed in.\<close>

theorem link_flag_consumed_witness:
  "faulty (mockEnv 0 mockResponse) (Get ''Auth:SessionId:key:default'') = None \<and>
   faulty (mockEnv 0 mockResponse) (Get ''Auth:LinkAccount:key:default'') = None \<and>
   faulty (mockEnv 0 mockResponse) (Remove ''Auth:LinkAccount:key:default'') = None \<and>
   truthy (storage ((mockAuth SetState linkStorage)\<lparr>user := Some mockUserData\<rparr>) ''Auth:LinkAccount:key:default'') \<and>
   user ((mockAuth SetState linkStorage)\<lparr>user := Some mockUserData\<rparr>) \<noteq> None \<and>
   storage (snd (finishProviderSignIn SetState (mockEnv 0 mockResponse) ''redirectHere?code=4''
     ((mockAuth SetState linkStorage)\<lparr>user := Some mockUserData\<rparr>))) ''Auth:LinkAccount:key:default'' = None \<and>
   storage (snd (finishProviderSignIn SetState (mockEnv 0 mockResponse) ''redirectHere?code=4''
     ((mockAuth SetState linkStorage)\<lparr>user := Some mockUserData\<rparr>))) ''Auth:SessionId:key:default'' =
     Some (SText ''LwtaMnW9snPfIfm9R1rPTosVpY4'')"
proof -
  let ?e = "mockEnv 0 mockResponse"
  let ?s = "(mockAuth SetState linkStorage)\<lparr>user := Some mockUserData\<rparr>"
  have k: "sKey ''SessionId'' ?s = ''Auth:SessionId:key:default''"
    "sKey ''LinkAccount'' ?s = ''Auth:LinkAccount:key:default''"
    by (simp_all add: sKey_def fixtures)
  have f: "faulty ?e op = None" for op by (simp add: mockEnv_def)
  have t: "truthy (storage ?s ''Auth:LinkAccount:key:default'')" by (simp add: fixtures)
  have u: "user ?s \<noteq> None" by simp
  have 4: "\<not> (truthy (storage ?s (sKey ''LinkAccount'' ?s)) \<and> user ?s = None)" by simp
  have b: "storage (mockAuth SetState linkStorage) ''Auth:SessionId:key:default'' =
      Some (SText ''LwtaMnW9snPfIfm9R1rPTosVpY4'')"
    by (simp add: fixtures)
  from link_flag_consumed[OF f f f 4, of SetState "''redirectHere?code=4''"]
  have "storage (snd (finishProviderSignIn SetState ?e ''redirectHere?code=4'' ?s)) ''Auth:LinkAccount:key:default'' = None"
    and "storage (snd (finishProviderSignIn SetState ?e ''redirectHere?code=4'' ?s)) ''Auth:SessionId:key:default'' =
         Some (SText ''LwtaMnW9snPfIfm9R1rPTosVpY4'')"
    by (simp_all add: k b)
  then show ?thesis using f t u by simp
qed

text \<open>
  The claim as it was stated fails twice. A flow that resolves (here with the context
  of the response) leaves the SessionId key in the storage: no line of either listing
  removes it. And the link flow without a user rejects before the line that removes
  the LinkAccount key, which stays set.
\<close>

theorem flow_state_survives_counterexample:
  "fst (finishProviderSignIn SetState (mockEnv 0 mockResponse) ''redirectHere?code=4''
         (mockAuth SetState flowStorage)) = Resolved ''ctx'' \<and>
   storage (snd (finishProviderSignIn SetState (mockEnv 0 mockResponse) ''redirectHere?code=4''
         (mockAuth SetState flowStorage))) ''Auth:SessionId:key:default'' =
     Some (SText ''LwtaMnW9snPfIfm9R1rPTosVpY4'') \<and>
   fst (finishProviderSignIn SetState (mockEnv 0 mockResponse) ''redirectHere?code=4''
         (mockAuth SetState linkStorage)) = Rejected OrphanedLinkAttempt \<and>
   storage (snd (finishProviderSignIn SetState (mockEnv 0 mockResponse) ''redirectHere?code=4''
         (mockAuth SetState linkStorage))) ''Auth:LinkAccount:key:default'' = Some STrue"
  by (simp add: finishProviderSignIn_def await_def storage_get_def storage_remove_def settle_write_def del_def
      api_def api_settle_def fetchProfile_def setState_def storage_set_def put_def emit_def return_def throw_def
      replaceState_def userData_of_def sKey_def fixtures)

subsection \<open>C5: starting a provider flow\<close>

text \<open>
  Claim C5. \<^verbatim>\<open>signInWithProvider\<close> rejects with the redirectUri error when no redirect URI
  is configured, and, when one is configured and \<^verbatim>\<open>linkAccount\<close> is requested with no
  user signed in, with the logged-in error; in both cases the state is the one before
  the call, so nothing was written. When the call resolves, the last request was the
  \<^verbatim>\<open>createAuthUri\<close> call, and for its response: the storage holds its \<^verbatim>\<open>sessionId\<close> under
  the SessionId key, holds \<^verbatim>\<open>true\<close> under the LinkAccount key when \<^verbatim>\<open>linkAccount\<close> was
  requested and what it held before otherwise, and the page is at its \<^verbatim>\<open>authUri\<close>.
  And the call does resolve, with exactly these effects and no other: without
  \<^verbatim>\<open>linkAccount\<close>, when a redirect URI is configured, the provider passes the check of the
  listing, the \<^verbatim>\<open>createAuthUri\<close> call is answered with an ok response and the storage
  accepts the \<^verbatim>\<open>sessionId\<close>; with \<^verbatim>\<open>linkAccount\<close>, when moreover \<^verbatim>\<open>enforceAuth\<close> resolves (as
  it does for a signed-in user) and the storage accepts \<^verbatim>\<open>true\<close> under the LinkAccount
  key. Both listings.
\<close>

theorem signInWithProvider_checks:
  "(configured s = None \<longrightarrow> signInWithProvider l e opts s = (Rejected MissingRedirectTarget, s))
 \<and> (configured s \<noteq> None \<and> linkAccount (destructure opts) \<and> user s = None
       \<longrightarrow> signInWithProvider l e opts s = (Rejected NotAuthenticated, s))
 \<and> (signInWithProvider l e opts s = (Resolved (), s')
       \<longrightarrow> (\<exists>resp. fetch e (length (requests s') - 1) (last (requests s')) = Inr resp \<and> ok resp \<and>
              url (last (requests s')) = endpoint_url ''createAuthUri'' s \<and>
              storage s' (sKey ''SessionId'' s) = Some (SText (sessionId (data resp))) \<and>
              storage s' (sKey ''LinkAccount'' s) =
                (if linkAccount (destructure opts) then Some STrue else storage s (sKey ''LinkAccount'' s)) \<and>
              href s' = authUri (data resp)))
 \<and> (\<not> linkAccount (destructure opts) \<and> configured s = Some r \<and>
     allowed l s (provider (destructure opts)) \<and>
     fetch e (length (requests s))
       (api_request ''createAuthUri'' (createAuthUri_body l s r (destructure opts)) s) = Inr resp0 \<and>
     ok resp0 \<and>
     faulty e (Set (sKey ''SessionId'' s) (SText (sessionId (data resp0)))) = None
       \<longrightarrow> signInWithProvider l e opts s =
             (Resolved (),
              s\<lparr>requests := requests s @
                   [api_request ''createAuthUri'' (createAuthUri_body l s r (destructure opts)) s],
                storage := (storage s)(sKey ''SessionId'' s \<mapsto> SText (sessionId (data resp0))),
                href := authUri (data resp0)\<rparr>))
 \<and> (linkAccount (destructure opts) \<and> configured s = Some r \<and>
     enforceAuth l e s = (Resolved (), s1) \<and>
     allowed l s1 (provider (destructure opts)) \<and>
     fetch e (length (requests s1))
       (api_request ''createAuthUri'' (createAuthUri_body l s1 r (destructure opts)) s1) = Inr resp1 \<and>
     ok resp1 \<and>
     faulty e (Set (sKey ''SessionId'' s) (SText (sessionId (data resp1)))) = None \<and>
     faulty e (Set (sKey ''LinkAccount'' s) STrue) = None
       \<longrightarrow> signInWithProvider l e opts s =
             (Resolved (),
              s1\<lparr>requests := requests s1 @
                    [api_request ''createAuthUri'' (createAuthUri_body l s1 r (destructure opts)) s1],
                 storage := (storage s1)(sKey ''SessionId'' s \<mapsto> SText (sessionId (data resp1)),
                                         sKey ''LinkAccount'' s \<mapsto> STrue),
                 href := authUri (data resp1)\<rparr>))"
proof (intro conjI impI)
  assume "configured s = None"
  then show "signInWithProvider l e opts s = (Rejected MissingRedirectTarget, s)"
    by (simp add: signInWithProvider_def throw_def)
next
  assume "configured s \<noteq> None \<and> linkAccount (destructure opts) \<and> user s = None"
  then show "signInWithProvider l e opts s = (Rejected NotAuthenticated, s)"
    by (auto simp add: signInWithProvider_def throw_def await_def enforceAuth_def)
next
  assume "signInWithProvider l e opts s = (Resolved (), s')"
  then show "\<exists>resp. fetch e (length (requests s') - 1) (last (requests s')) = Inr resp \<and> ok resp \<and>
              url (last (requests s')) = endpoint_url ''createAuthUri'' s \<and>
              storage s' (sKey ''SessionId'' s) = Some (SText (sessionId (data resp))) \<and>
              storage s' (sKey ''LinkAccount'' s) =
                (if linkAccount (destructure opts) then Some STrue else storage s (sKey ''LinkAccount'' s)) \<and>
              href s' = authUri (data resp)"
    by (rule signIn_success)
next
  assume "\<not> linkAccount (destructure opts) \<and> configured s = Some r \<and>
     allowed l s (provider (destructure opts)) \<and>
     fetch e (length (requests s))
       (api_request ''createAuthUri'' (createAuthUri_body l s r (destructure opts)) s) = Inr resp0 \<and>
     ok resp0 \<and>
     faulty e (Set (sKey ''SessionId'' s) (SText (sessionId (data resp0)))) = None"
  then show "signInWithProvider l e opts s =
             (Resolved (),
              s\<lparr>requests := requests s @
                   [api_request ''createAuthUri'' (createAuthUri_body l s r (destructure opts)) s],
                storage := (storage s)(sKey ''SessionId'' s \<mapsto> SText (sessionId (data resp0))),
                href := authUri (data resp0)\<rparr>)"
    by (simp add: signInWithProvider_def await_def return_def api_def api_settle_def
        storage_set_def settle_write_def put_def sKey_def)
next
  assume a: "linkAccount (destructure opts) \<and> configured s = Some r \<and>
     enforceAuth l e s = (Resolved (), s1) \<and>
     allowed l s1 (provider (destructure opts)) \<and>
     fetch e (length (requests s1))
       (api_request ''createAuthUri'' (createAuthUri_body l s1 r (destructure opts)) s1) = Inr resp1 \<and>
     ok resp1 \<and>
     faulty e (Set (sKey ''SessionId'' s) (SText (sessionId (data resp1)))) = None \<and>
     faulty e (Set (sKey ''LinkAccount'' s) STrue) = None"
  then have same: "same_instance s s1"
    using enforceAuth_same[of s l e] by simp
  then have keys: "sKey ''SessionId'' s1 = sKey ''SessionId'' s" "sKey ''LinkAccount'' s1 = sKey ''LinkAccount'' s"
    by (simp_all add: same_instance_keys)
  have inst: "name s1 = name s" "apiKey s1 = apiKey s"
    using same by (simp_all add: same_instance_def)
  from a inst show "signInWithProvider l e opts s =
             (Resolved (),
              s1\<lparr>requests := requests s1 @
                    [api_request ''createAuthUri'' (createAuthUri_body l s1 r (destructure opts)) s1],
                 storage := (storage s1)(sKey ''SessionId'' s \<mapsto> SText (sessionId (data resp1)),
                                         sKey ''LinkAccount'' s \<mapsto> STrue),
                 href := authUri (data resp1)\<rparr>)"
    by (simp add: signInWithProvider_def await_def return_def api_def api_settle_def
        storage_set_def settle_write_def put_def sKey_def)
qed

text \<open>
  Four calls: without a redirect URI; with \<^verbatim>\<open>linkAccount\<close> and nobody signed in;
  \<^verbatim>\<open>signInWithProvider('google.com')\<close> of the test suite, first listing, which resolves and
  leaves no LinkAccount key; and, in the second listing, a request with \<^verbatim>\<open>linkAccount\<close> of
  a signed-in user whose token is fresh, which resolves after the one \<^verbatim>\<open>createAuthUri\<close>
  call with \<^verbatim>\<open>true\<close> under the LinkAccount key.
\<close>

theorem signInWithProvider_checks_witness:
  "configured ((mockAuth SetState emptyStorage)\<lparr>redirectUri := None\<rparr>) = None \<and>
   signInWithProvider SetState (mockEnv 0 mockResponse) (Name ''google.com'')
     ((mockAuth SetState emptyStorage)\<lparr>redirectUri := None\<rparr>) =
     (Rejected MissingRedirectTarget, (mockAuth SetState emptyStorage)\<lparr>redirectUri := None\<rparr>) \<and>
   configured (mockAuth SetState emptyStorage) \<noteq> None \<and>
   linkAccount (destructure (Options \<lparr>provider = ''google.com'', oauthScope = None, o_context = None, linkAccount = True\<rparr>)) \<and>
   user (mockAuth SetState emptyStorage) = None \<and>
   signInWithProvider SetState (mockEnv 0 mockResponse)
     (Options \<lparr>provider = ''google.com'', oauthScope = None, o_context = None, linkAccount = True\<rparr>)
     (mockAuth SetState emptyStorage) =
     (Rejected NotAuthenticated, mockAuth SetState emptyStorage) \<and>
   fst (signInWithProvider PersistSession (mockEnv 0 mockResponse) (Name ''google.com'')
     (mockAuth PersistSession emptyStorage)) = Resolved () \<and>
   storage (snd (signInWithProvider PersistSession (mockEnv 0 mockResponse) (Name ''google.com'')
     (mockAuth PersistSession emptyStorage))) ''Auth:SessionId:key:default'' = Some (SText ''LwtaMnW9snPfIfm9R1rPTosVpY4'') \<and>
   storage (snd (signInWithProvider PersistSession (mockEnv 0 mockResponse) (Name ''google.com'')
     (mockAuth PersistSession emptyStorage))) ''Auth:LinkAccount:key:default'' = None \<and>
   href (snd (signInWithProvider PersistSession (mockEnv 0 mockResponse) (Name ''google.com'')
     (mockAuth PersistSession emptyStorage))) = ''https://accounts.google.com/o/oauth2/auth'' \<and>
   user (signedIn SetState) = Some mockUserData \<and>
   enforceAuth SetState (mockEnv 0 mockResponse) (signedIn SetState) = (Resolved (), signedIn SetState) \<and>
   fst (signInWithProvider SetState (mockEnv 0 mockResponse)
     (Options \<lparr>provider = ''google.com'', oauthScope = None, o_context = None, linkAccount = True\<rparr>)
     (signedIn SetState)) = Resolved () \<and>
   length (requests (snd (signInWithProvider SetState (mockEnv 0 mockResponse)
     (Options \<lparr>provider = ''google.com'', oauthScope = None, o_context = None, linkAccount = True\<rparr>)
     (signedIn SetState)))) = 1 \<and>
   storage (snd (signInWithProvider SetState (mockEnv 0 mockResponse)
     (Options \<lparr>provider = ''google.com'', oauthScope = None, o_context = None, linkAccount = True\<rparr>)
     (signedIn SetState))) ''Auth:SessionId:key:default'' = Some (SText ''LwtaMnW9snPfIfm9R1rPTosVpY4'') \<and>
   storage (snd (signInWithProvider SetState (mockEnv 0 mockResponse)
     (Options \<lparr>provider = ''google.com'', oauthScope = None, o_context = None, linkAccount = True\<rparr>)
     (signedIn SetState))) ''Auth:LinkAccount:key:default'' = Some STrue \<and>
   href (snd (signInWithProvider SetState (mockEnv 0 mockResponse)
     (Options \<lparr>provider = ''google.com'', oauthScope = None, o_context = None, linkAccount = True\<rparr>)
     (signedIn SetState))) = ''https://accounts.google.com/o/oauth2/auth''"
proof -
  let ?e = "mockEnv 0 mockResponse"
  let ?s1 = "(mockAuth SetState emptyStorage)\<lparr>redirectUri := None\<rparr>"
  let ?s2 = "mockAuth SetState emptyStorage"
  let ?o2 = "Options \<lparr>provider = ''google.com'', oauthScope = None, o_context = None, linkAccount = True\<rparr>"
  let ?s3 = "mockAuth PersistSession emptyStorage"
  let ?s4 = "signedIn SetState"
  let ?R = "signInWithProvider PersistSession ?e (Name ''google.com'') ?s3"
  let ?L = "signInWithProvider SetState ?e ?o2 ?s4"
  have 1: "configured ?s1 = None" by (simp add: configured_def)
  have 2: "configured ?s2 \<noteq> None \<and> linkAccount (destructure ?o2) \<and> user ?s2 = None"
    by (simp add: configured_def fixtures)
  have 3: "fst ?R = Resolved ()"
    by (simp add: signInWithProvider_def configured_def await_def return_def api_def api_settle_def
        storage_set_def settle_write_def put_def fixtures)
  then have run: "?R = (Resolved (), snd ?R)" by (simp add: prod_eq_iff)
  have keys: "sKey ''SessionId'' ?s3 = ''Auth:SessionId:key:default''"
    "sKey ''LinkAccount'' ?s3 = ''Auth:LinkAccount:key:default''"
    by (simp_all add: sKey_def fixtures)
  have before: "storage ?s3 ''Auth:LinkAccount:key:default'' = None" by (simp add: fixtures)
  have f: "fetch ?e n q = Inr mockResponse" for n q by (simp add: mockEnv_def)
  have q: "faulty ?e op = None" for op by (simp add: mockEnv_def)
  have d: "sessionId (data mockResponse) = ''LwtaMnW9snPfIfm9R1rPTosVpY4''"
    "authUri (data mockResponse) = ''https://accounts.google.com/o/oauth2/auth''"
    "ok mockResponse"
    by (simp_all add: mockResponse_def)
  from signInWithProvider_checks[of ?s1 SetState ?e "Name ''google.com''"] 1
  have a: "signInWithProvider SetState ?e (Name ''google.com'') ?s1 = (Rejected MissingRedirectTarget, ?s1)"
    by blast
  from signInWithProvider_checks[of ?s2 SetState ?e ?o2] 2
  have b: "signInWithProvider SetState ?e ?o2 ?s2 = (Rejected NotAuthenticated, ?s2)"
    by blast
  from signInWithProvider_checks[of ?s3 PersistSession ?e "Name ''google.com''" "snd ?R"] run
  obtain resp where "fetch ?e (length (requests (snd ?R)) - 1) (last (requests (snd ?R))) = Inr resp"
    and "storage (snd ?R) (sKey ''SessionId'' ?s3) = Some (SText (sessionId (data resp)))"
    and "storage (snd ?R) (sKey ''LinkAccount'' ?s3) =
           (if linkAccount (destructure (Name ''google.com'')) then Some STrue
            else storage ?s3 (sKey ''LinkAccount'' ?s3))"
    and "href (snd ?R) = authUri (data resp)"
    by blast
  then have c: "storage (snd ?R) ''Auth:SessionId:key:default'' = Some (SText ''LwtaMnW9snPfIfm9R1rPTosVpY4'')"
    "storage (snd ?R) ''Auth:LinkAccount:key:default'' = None"
    "href (snd ?R) = ''https://accounts.google.com/o/oauth2/auth''"
    by (simp_all add: f keys before d)
  have u: "user ?s4 = Some mockUserData" by (simp add: fixtures)
  have en: "enforceAuth SetState ?e ?s4 = (Resolved (), ?s4)"
    by (simp add: enforceAuth_def refreshIdToken_def fresh_def return_def fixtures)
  have keys4: "sKey ''SessionId'' ?s4 = ''Auth:SessionId:key:default''"
    "sKey ''LinkAccount'' ?s4 = ''Auth:LinkAccount:key:default''"
    by (simp_all add: sKey_def fixtures)
  have r4: "requests ?s4 = []" by (simp add: fixtures)
  have 4: "linkAccount (destructure ?o2) \<and> configured ?s4 = Some ''redirectHere'' \<and>
     enforceAuth SetState ?e ?s4 = (Resolved (), ?s4) \<and>
     allowed SetState ?s4 (provider (destructure ?o2)) \<and>
     fetch ?e (length (requests ?s4))
       (api_request ''createAuthUri'' (createAuthUri_body SetState ?s4 ''redirectHere'' (destructure ?o2)) ?s4)
       = Inr mockResponse \<and>
     ok mockResponse \<and>
     faulty ?e (Set (sKey ''SessionId'' ?s4) (SText (sessionId (data mockResponse)))) = None \<and>
     faulty ?e (Set (sKey ''LinkAccount'' ?s4) STrue) = None"
    using en by (simp add: f q d) (simp add: configured_def fixtures)
  from signInWithProvider_checks[where s = ?s4 and l = SetState and e = ?e and opts = ?o2
      and r = "''redirectHere''" and ?s1.0 = ?s4 and ?resp1.0 = mockResponse] 4
  have L: "?L = (Resolved (),
              ?s4\<lparr>requests := requests ?s4 @
                    [api_request ''createAuthUri''
                       (createAuthUri_body SetState ?s4 ''redirectHere'' (destructure ?o2)) ?s4],
                 storage := (storage ?s4)(sKey ''SessionId'' ?s4 \<mapsto> SText (sessionId (data mockResponse)),
                                         sKey ''LinkAccount'' ?s4 \<mapsto> STrue),
                 href := authUri (data mockResponse)\<rparr>)"
    by blast
  have e: "fst ?L = Resolved ()" "length (requests (snd ?L)) = 1"
    "storage (snd ?L) ''Auth:SessionId:key:default'' = Some (SText ''LwtaMnW9snPfIfm9R1rPTosVpY4'')"
    "storage (snd ?L) ''Auth:LinkAccount:key:default'' = Some STrue"
    "href (snd ?L) = ''https://accounts.google.com/o/oauth2/auth''"
    unfolding L by (simp_all add: keys4 r4 d)
  from 1 2 3 a b c u en e show ?thesis by (intro conjI) simp_all
qed

subsection \<open>C6: a link flow that lost its session\<close>

text \<open>
  Claim C6. When the stored LinkAccount flag is truthy and no user is signed in,
  \<^verbatim>\<open>finishProviderSignIn\<close> rejects with the "Link account" error before the
  \<^verbatim>\<open>signInWithIdp\<close> request is made: the state is the one before the call, so no request
  was issued, nothing was written and no session was established. Both listings; the
  two reads of the storage are assumed to succeed.
\<close>

theorem orphaned_link:
  assumes "faulty e (Get (sKey ''SessionId'' s)) = None"
    and "faulty e (Get (sKey ''LinkAccount'' s)) = None"
    and "truthy (storage s (sKey ''LinkAccount'' s))"
    and "user s = None"
  shows "finishProviderSignIn l e requestUri s = (Rejected OrphanedLinkAttempt, s)"
  using assms by (simp add: finishProviderSignIn_def await_def storage_get_def throw_def)

theorem orphaned_link_witness:
  "faulty (mockEnv 0 mockResponse) (Get (sKey ''SessionId'' (mockAuth SetState linkStorage))) = None \<and>
   faulty (mockEnv 0 mockResponse) (Get (sKey ''LinkAccount'' (mockAuth SetState linkStorage))) = None \<and>
   truthy (storage (mockAuth SetState linkStorage) (sKey ''LinkAccount'' (mockAuth SetState linkStorage))) \<and>
   user (mockAuth SetState linkStorage) = None \<and>
   finishProviderSignIn SetState (mockEnv 0 mockResponse) ''redirectHere?code=4'' (mockAuth SetState linkStorage) =
     (Rejected OrphanedLinkAttempt, mockAuth SetState linkStorage) \<and>
   requests (snd (finishProviderSignIn SetState (mockEnv 0 mockResponse) ''redirectHere?code=4''
     (mockAuth SetState linkStorage))) = []"
proof -
  have 1: "faulty (mockEnv 0 mockResponse) (Get k) = None" for k by (simp add: fixtures)
  have 3: "truthy (storage (mockAuth SetState linkStorage) (sKey ''LinkAccount'' (mockAuth SetState linkStorage)))"
    by (simp add: fixtures sKey_def)
  have 4: "user (mockAuth SetState linkStorage) = None" by (simp add: fixtures)
  have 5: "requests (mockAuth SetState linkStorage) = []" by (simp add: fixtures)
  show ?thesis
    using 1 3 4 5 orphaned_link[OF 1 1 3 4, of SetState "''redirectHere?code=4''"] by simp
qed

subsection \<open>C7: a token that has not expired\<close>

text \<open>
  Claim C7. When a user is signed in and \<^verbatim>\<open>expiresAt\<close> lies strictly after
  \<^verbatim>\<open>Date.now()\<close>, \<^verbatim>\<open>refreshIdToken\<close> and \<^verbatim>\<open>enforceAuth\<close> resolve at once and the state is
  the one before the call: no request was issued, and the session in memory and in the
  storage is unchanged. Both listings.
\<close>

theorem refreshIdToken_fresh:
  assumes "user s = Some u" and "expiresAt (tokenManager u) = Some t" and "now e < t"
  shows "refreshIdToken l e s = (Resolved (), s) \<and> enforceAuth l e s = (Resolved (), s)"
  using assms by (simp add: refreshIdToken_def enforceAuth_def fresh_def return_def)

theorem refreshIdToken_fresh_witness:
  "user (signedIn SetState) = Some mockUserData \<and> expiresAt (tokenManager mockUserData) = Some 3600000 \<and>
   now (mockEnv 0 mockResponse) < 3600000 \<and>
   refreshIdToken SetState (mockEnv 0 mockResponse) (signedIn SetState) = (Resolved (), signedIn SetState) \<and>
   enforceAuth PersistSession (mockEnv 0 mockResponse) (signedIn PersistSession) = (Resolved (), signedIn PersistSession) \<and>
   requests (snd (refreshIdToken SetState (mockEnv 0 mockResponse) (signedIn SetState))) = []"
proof -
  have 1: "user (signedIn l) = Some mockUserData" for l by (simp add: fixtures)
  have 2: "expiresAt (tokenManager mockUserData) = Some 3600000" by (simp add: fixtures)
  have 3: "now (mockEnv 0 mockResponse) < 3600000" by (simp add: fixtures)
  have 4: "requests (signedIn SetState) = []" by (simp add: fixtures)
  show ?thesis
    using 1 2 3 4 refreshIdToken_fresh[OF 1 2 3, of SetState] refreshIdToken_fresh[OF 1 2 3, of PersistSession]
    by simp
qed

subsection \<open>C8: signing out\<close>

text \<open>
  Claim C8, as amended. In the second listing \<^verbatim>\<open>signOut\<close> is \<^verbatim>\<open>setState(null)\<close> with \<open>persist\<close>
  and \<open>emit\<close> both true, by its text. When the removal from the storage succeeds, this
  holds of the first listing too, by its effect; then, in both listings, no user is in
  memory and nothing is stored under the user key after the call, the listeners have
  been called in order with \<^verbatim>\<open>null\<close> up to the first one that throws, and a second call
  settles as the first did, issues no request and leaves the state as it was but for the
  log of notifications, to which it adds the same calls. When moreover no listener
  throws, each of the two calls resolves and notifies every listener with \<^verbatim>\<open>null\<close>.
\<close>

theorem signOut_twice:
  "signOut SetState e s = setState e None True True s \<and>
   (faulty e (Remove (sKey ''User'' s)) = None \<longrightarrow>
      signOut l e s = setState e None True True s \<and>
      user (snd (signOut l e s)) = None \<and>
      storage (snd (signOut l e s)) (sKey ''User'' s) = None \<and>
      requests (snd (signOut l e s)) = requests s \<and>
      notified (snd (signOut l e s)) = notified s @ fst (forEach (throws e) None (listeners s)) \<and>
      signOut l e (snd (signOut l e s)) =
        (fst (signOut l e s),
         (snd (signOut l e s))
           \<lparr>notified := notified (snd (signOut l e s)) @ fst (forEach (throws e) None (listeners s))\<rparr>)) \<and>
   (faulty e (Remove (sKey ''User'' s)) = None \<and> (\<forall>cb \<in> set (listeners s). \<not> throws e cb) \<longrightarrow>
      fst (signOut l e s) = Resolved () \<and>
      notified (snd (signOut l e s)) = notified s @ map (\<lambda>cb. (cb, None)) (listeners s) \<and>
      signOut l e (snd (signOut l e s)) =
        (Resolved (),
         (snd (signOut l e s))\<lparr>notified := notified (snd (signOut l e s)) @ map (\<lambda>cb. (cb, None)) (listeners s)\<rparr>))"
proof (intro conjI impI)
  show "signOut SetState e s = setState e None True True s" by simp
next
  assume ok: "faulty e (Remove (sKey ''User'' s)) = None"
  have run: "signOut l e s =
      ((case snd (forEach (throws e) None (listeners s)) of None \<Rightarrow> Resolved () | Some x \<Rightarrow> Rejected x),
       s\<lparr>user := None, storage := (storage s)(sKey ''User'' s := None),
         notified := notified s @ fst (forEach (throws e) None (listeners s))\<rparr>)"
    using ok
    by (cases l)
      (simp_all add: setState_def await_def storage_remove_def settle_write_def emit_def del_def sKey_def
        split: prod.splits)
  have same: "setState e None True True s = signOut l e s"
    unfolding run using ok
    by (simp add: setState_def await_def storage_remove_def settle_write_def emit_def del_def sKey_def
        split: prod.splits)
  let ?s1 = "s\<lparr>user := None, storage := (storage s)(sKey ''User'' s := None),
         notified := notified s @ fst (forEach (throws e) None (listeners s))\<rparr>"
  have again: "signOut l e ?s1 =
      ((case snd (forEach (throws e) None (listeners s)) of None \<Rightarrow> Resolved () | Some x \<Rightarrow> Rejected x),
       ?s1\<lparr>notified := notified ?s1 @ fst (forEach (throws e) None (listeners s))\<rparr>)"
    using ok
    by (cases l)
      (simp_all add: setState_def await_def storage_remove_def settle_write_def emit_def del_def sKey_def
        split: prod.splits)
  show "signOut l e s = setState e None True True s" using same by simp
  show "user (snd (signOut l e s)) = None" unfolding run by simp
  show "storage (snd (signOut l e s)) (sKey ''User'' s) = None" unfolding run by simp
  show "requests (snd (signOut l e s)) = requests s" unfolding run by simp
  show "notified (snd (signOut l e s)) = notified s @ fst (forEach (throws e) None (listeners s))"
    unfolding run by simp
  show "signOut l e (snd (signOut l e s)) =
        (fst (signOut l e s),
         (snd (signOut l e s))
           \<lparr>notified := notified (snd (signOut l e s)) @ fst (forEach (throws e) None (listeners s))\<rparr>)"
    unfolding run snd_conv fst_conv by (rule again)
next
  assume "faulty e (Remove (sKey ''User'' s)) = None \<and> (\<forall>cb \<in> set (listeners s). \<not> throws e cb)"
  then have ok: "faulty e (Remove (sKey ''User'' s)) = None" and quiet: "\<forall>cb \<in> set (listeners s). \<not> throws e cb"
    by simp_all
  note run = signOut_quiet[OF ok quiet, of l]
  let ?s1 = "s\<lparr>user := None, storage := (storage s)(sKey ''User'' s := None),
                notified := notified s @ map (\<lambda>cb. (cb, None)) (listeners s)\<rparr>"
  have ok1: "faulty e (Remove (sKey ''User'' ?s1)) = None" using ok by (simp add: sKey_def)
  have quiet1: "\<forall>cb \<in> set (listeners ?s1). \<not> throws e cb" using quiet by simp
  have again: "signOut l e ?s1 =
      (Resolved (), ?s1\<lparr>notified := notified ?s1 @ map (\<lambda>cb. (cb, None)) (listeners s)\<rparr>)"
    using signOut_quiet[OF ok1 quiet1, of l] by (simp add: sKey_def)
  show "fst (signOut l e s) = Resolved ()" unfolding run by simp
  show "notified (snd (signOut l e s)) = notified s @ map (\<lambda>cb. (cb, None)) (listeners s)"
    unfolding run by simp
  show "signOut l e (snd (signOut l e s)) =
        (Resolved (),
         (snd (signOut l e s))\<lparr>notified := notified (snd (signOut l e s)) @ map (\<lambda>cb. (cb, None)) (listeners s)\<rparr>)"
    unfolding run snd_conv by (rule again)
qed

theorem signOut_twice_witness:
  "faulty (mockEnv 0 mockResponse) (Remove (sKey ''User'' (listen 7 (signedIn PersistSession)))) = None \<and>
   \<not> throws (mockEnv 0 mockResponse) 7 \<and>
   signOut PersistSession (mockEnv 0 mockResponse) (listen 7 (signedIn PersistSession)) =
     setState (mockEnv 0 mockResponse) None True True (listen 7 (signedIn PersistSession)) \<and>
   fst (signOut PersistSession (mockEnv 0 mockResponse) (listen 7 (signedIn PersistSession))) = Resolved () \<and>
   user (snd (signOut PersistSession (mockEnv 0 mockResponse) (listen 7 (signedIn PersistSession)))) = None \<and>
   storage (snd (signOut PersistSession (mockEnv 0 mockResponse) (listen 7 (signedIn PersistSession))))
     ''Auth:User:key:default'' = None \<and>
   notified (snd (signOut PersistSession (mockEnv 0 mockResponse) (listen 7 (signedIn PersistSession)))) = [(7, None)] \<and>
   notified (snd (signOut PersistSession (mockEnv 0 mockResponse)
     (snd (signOut PersistSession (mockEnv 0 mockResponse) (listen 7 (signedIn PersistSession)))))) =
     [(7, None), (7, None)]"
proof -
  let ?s = "listen 7 (signedIn PersistSession)"
  let ?e = "mockEnv 0 mockResponse"
  have 1: "faulty ?e (Remove (sKey ''User'' ?s)) = None" by (simp add: fixtures)
  have 2: "\<forall>cb \<in> set (listeners ?s). \<not> throws ?e cb" by (simp add: fixtures)
  have 3: "\<not> throws ?e 7" by (simp add: fixtures)
  have 4: "sKey ''User'' ?s = ''Auth:User:key:default''" "listeners ?s = [7]" "notified ?s = []"
    by (simp_all add: fixtures sKey_def listen_def)
  let ?R = "signOut PersistSession ?e ?s"
  note T = signOut_twice[of ?e ?s PersistSession]
  from T 1 have eq: "?R = setState ?e None True True ?s" by blast
  from T 1 have u: "user (snd ?R) = None" by blast
  from T 1 have st: "storage (snd ?R) (sKey ''User'' ?s) = None" by blast
  from T 1 2 have r: "fst ?R = Resolved ()" by blast
  from T 1 2 have n: "notified (snd ?R) = notified ?s @ map (\<lambda>cb. (cb, None)) (listeners ?s)" by blast
  from T 1 2 have again: "signOut PersistSession ?e (snd ?R) =
      (Resolved (), (snd ?R)\<lparr>notified := notified (snd ?R) @ map (\<lambda>cb. (cb, None)) (listeners ?s)\<rparr>)"
    by blast
  have a: "notified (snd (signOut PersistSession ?e (snd ?R))) = [(7, None), (7, None)]"
    unfolding again using n by (simp add: 4)
  have b: "notified (snd ?R) = [(7, None)]" using n by (simp add: 4)
  have c: "storage (snd ?R) ''Auth:User:key:default'' = None" using st by (simp add: 4)
  from 1 3 eq r u a b c show ?thesis by (intro conjI)
qed

text \<open>
  The claim as it was stated has no condition on the storage. When the adapter rejects
  the removal, \<^verbatim>\<open>signOut\<close> of the first listing, which removes before it assigns, rejects
  with the user still signed in, while \<^verbatim>\<open>setState(null)\<close> has cleared the user before it
  rejects.
\<close>

theorem signOut_rejected_counterexample:
  "user (signedIn PersistSession) = Some mockUserData \<and>
   signOut PersistSession rejectingEnv (signedIn PersistSession) =
     (Rejected (StorageError ''QuotaExceededError''), signedIn PersistSession) \<and>
   fst (setState rejectingEnv None True True (signedIn PersistSession)) =
     Rejected (StorageError ''QuotaExceededError'') \<and>
   user (snd (setState rejectingEnv None True True (signedIn PersistSession))) = None"
  by (simp add: setState_def await_def storage_remove_def settle_write_def fixtures)

subsection \<open>C9: unsubscribing a listener\<close>

text \<open>
  Claim C9, as amended. The function returned by \<^verbatim>\<open>listen(cb)\<close> removes every
  registration of \<open>cb\<close> and no registration of another listener; calling it again
  changes nothing; the listeners left are those of before without \<open>cb\<close>. After
  \<^verbatim>\<open>listen(cb)\<close>, the call of the returned function and a \<^verbatim>\<open>signOut\<close>, the listener \<open>cb\<close>
  has received nothing, and every other listener has received one notification for
  each of its registrations: exactly one when it is registered once. Both listings;
  the removal from the storage is assumed to succeed and no listener to throw.
\<close>

theorem unlisten_removes:
  assumes "\<forall>g \<in> set (listeners s). \<not> throws e g"
    and "faulty e (Remove (sKey ''User'' s)) = None"
  shows "listeners (unlisten cb (listen cb s)) = filter (\<lambda>g. g \<noteq> cb) (listeners s)
     \<and> set (listeners (unlisten cb s)) = set (listeners s) - {cb}
     \<and> (\<forall>g. g \<noteq> cb \<longrightarrow> count_list (listeners (unlisten cb s)) g = count_list (listeners s) g)
     \<and> unlisten cb (unlisten cb s) = unlisten cb s
     \<and> (\<exists>new. notified (snd (signOut l e (unlisten cb (listen cb s)))) = notified s @ new \<and>
            received cb new = 0 \<and>
            (\<forall>g. g \<noteq> cb \<longrightarrow> received g new = count_list (listeners s) g))"
proof -
  let ?s' = "unlisten cb (listen cb s)"
  have 1: "listeners ?s' = filter (\<lambda>g. g \<noteq> cb) (listeners s)"
    by (simp add: unlisten_def listen_def)
  have 2: "count_list (filter (\<lambda>g. g \<noteq> cb) xs) g = count_list xs g" if "g \<noteq> cb" for g xs
    using that by (induction xs) auto
  have 3: "count_list (filter (\<lambda>g. g \<noteq> cb) xs) cb = 0" for xs
    by (induction xs) auto
  have 4: "\<forall>g \<in> set (listeners ?s'). \<not> throws e g"
    using assms(1) by (simp add: 1)
  have 5: "faulty e (Remove (sKey ''User'' ?s')) = None"
    using assms(2) by (simp add: sKey_def unlisten_def listen_def)
  have 6: "notified (snd (signOut l e ?s')) =
      notified s @ map (\<lambda>g. (g, None)) (filter (\<lambda>g. g \<noteq> cb) (listeners s))"
    unfolding signOut_quiet[OF 5 4] by (simp add: unlisten_def listen_def)
  have 7: "\<exists>new. notified (snd (signOut l e ?s')) = notified s @ new \<and>
            received cb new = 0 \<and>
            (\<forall>g. g \<noteq> cb \<longrightarrow> received g new = count_list (listeners s) g)"
    using 2 3 6 by (intro exI[of _ "map (\<lambda>g. (g, None)) (filter (\<lambda>g. g \<noteq> cb) (listeners s))"])
      (simp add: received_map)
  have 8: "set (listeners (unlisten cb s)) = set (listeners s) - {cb}"
    by (auto simp add: unlisten_def)
  have 9: "\<forall>g. g \<noteq> cb \<longrightarrow> count_list (listeners (unlisten cb s)) g = count_list (listeners s) g"
    using 2 by (simp add: unlisten_def)
  have 10: "unlisten cb (unlisten cb s) = unlisten cb s"
    by (simp add: unlisten_def)
  from 1 7 8 9 10 show ?thesis by blast
qed

text \<open>Listeners 8 and 9 stay registered while listener 7 comes and goes.\<close>

theorem unlisten_removes_witness:
  "\<not> throws (mockEnv 0 mockResponse) 8 \<and> \<not> throws (mockEnv 0 mockResponse) 9 \<and>
   faulty (mockEnv 0 mockResponse) (Remove ''Auth:User:key:default'') = None \<and>
   listeners (unlisten 7 (listen 7 (listen 9 (listen 8 (signedIn SetState))))) = [8, 9] \<and>
   received 7 (notified (snd (signOut SetState (mockEnv 0 mockResponse)
     (unlisten 7 (listen 7 (listen 9 (listen 8 (signedIn SetState)))))))) = 0 \<and>
   received 8 (notified (snd (signOut SetState (mockEnv 0 mockResponse)
     (unlisten 7 (listen 7 (listen 9 (listen 8 (signedIn SetState)))))))) = 1 \<and>
   received 9 (notified (snd (signOut SetState (mockEnv 0 mockResponse)
     (unlisten 7 (listen 7 (listen 9 (listen 8 (signedIn SetState)))))))) = 1"
proof -
  let ?e = "mockEnv 0 mockResponse"
  let ?s = "listen 9 (listen 8 (signedIn SetState))"
  let ?N = "notified (snd (signOut SetState ?e (unlisten 7 (listen 7 ?s))))"
  have l: "listeners ?s = [8, 9]" and n: "notified ?s = []" and k: "sKey ''User'' ?s = ''Auth:User:key:default''"
    by (simp_all add: listen_def sKey_def fixtures)
  have t: "throws ?e g = False" for g by (simp add: mockEnv_def)
  have 1: "\<forall>g \<in> set (listeners ?s). \<not> throws ?e g" by (simp add: t)
  have 2: "faulty ?e (Remove (sKey ''User'' ?s)) = None" by (simp add: mockEnv_def)
  from unlisten_removes[OF 1 2, of 7 SetState] obtain new where
    a: "listeners (unlisten 7 (listen 7 ?s)) = filter (\<lambda>g. g \<noteq> 7) (listeners ?s)"
    and b: "?N = notified ?s @ new"
    and c: "received 7 new = 0"
    and d: "\<forall>g. g \<noteq> 7 \<longrightarrow> received g new = count_list (listeners ?s) g"
    by blast
  from d have "received 8 new = count_list (listeners ?s) 8" "received 9 new = count_list (listeners ?s) 9"
    by simp_all
  then have "received 8 ?N = 1" "received 9 ?N = 1" "received 7 ?N = 0" "listeners (unlisten 7 (listen 7 ?s)) = [8, 9]"
    using a c unfolding b n l by simp_all
  then show ?thesis using t 2 unfolding k by simp
qed

text \<open>
  The claim as it was stated gives every listener that is still registered exactly one
  notification. \<^verbatim>\<open>emit\<close> calls a listener once for each of its registrations: listener 8,
  registered twice, is called twice.
\<close>

theorem notified_per_registration_counterexample:
  "received 8 (notified (snd (signOut SetState (mockEnv 0 mockResponse)
     (unlisten 7 (listen 7 (listen 8 (listen 8 (signedIn SetState)))))))) = 2"
  by (simp add: received_def setState_def await_def storage_remove_def settle_write_def del_def emit_def
      return_def unlisten_def listen_def sKey_def fixtures)

subsection \<open>C10: a request while nobody is signed in\<close>

text \<open>
  Claim C10. With no user, \<^verbatim>\<open>authorizedRequest\<close> passes to \<^verbatim>\<open>fetch\<close> the request it was
  given, or the one built from the address and the options, with its headers as they
  are; that one call of \<^verbatim>\<open>fetch\<close> is the only effect, so no token is refreshed and the
  session and the storage stay as they were. Both listings.
\<close>

theorem authorizedRequest_signed_out:
  assumes "user s = None"
  shows "authorizedRequest l e res i s =
           ((case fetch e (length (requests s)) (case res of IsRequest r \<Rightarrow> r | Url u \<Rightarrow> new_Request u i) of
               Inl x \<Rightarrow> Rejected x | Inr resp \<Rightarrow> Resolved resp),
            s\<lparr>requests := requests s @ [case res of IsRequest r \<Rightarrow> r | Url u \<Rightarrow> new_Request u i]\<rparr>)"
  using assms by (simp add: authorizedRequest_def do_fetch_def Let_def)

theorem authorizedRequest_signed_out_witness:
  "user (mockAuth SetState emptyStorage) = None \<and>
   authorizedRequest SetState (mockEnv 0 mockResponse) (Url ''http://google.com'') None (mockAuth SetState emptyStorage) =
     (Resolved mockResponse,
      (mockAuth SetState emptyStorage)
        \<lparr>requests := [\<lparr>url = ''http://google.com'', meth = ''GET'', headers = [], body = NoBody\<rparr>]\<rparr>)"
proof -
  have 1: "user (mockAuth SetState emptyStorage) = None" by (simp add: fixtures)
  have 2: "requests (mockAuth SetState emptyStorage) = []" by (simp add: fixtures)
  have 3: "fetch (mockEnv 0 mockResponse) n r = Inr mockResponse" for n r by (simp add: mockEnv_def)
  show ?thesis
    using 1 authorizedRequest_signed_out[OF 1, of SetState "mockEnv 0 mockResponse" "Url ''http://google.com''" None]
    by (simp add: 2 3 new_Request_def)
qed

end
